theory Spec2Isabelle
  imports Main "HOL-Library.AList"
begin

section \<open>Data model\<close>

text \<open>
  The model follows the last complete revision of the note editor
  (\<^verbatim>\<open>src/unnamed/part_000\<close>, lines 1234 to 2338): the classes
  \<^verbatim>\<open>StorageManager\<close>, \<^verbatim>\<open>HistoryManager\<close>, \<^verbatim>\<open>TabManager\<close> and \<^verbatim>\<open>SectionManager\<close>.

  A JavaScript string is modelled as a \<^typ>\<open>string\<close>; \<^verbatim>\<open>s.length\<close> is \<^term>\<open>length s\<close>, and
  a string is falsy exactly when it is empty. An exception is a value of type \<open>error\<close>.
  A method that can throw after it has already changed the object returns
  \<open>error option \<times> state\<close>: the state the object is left in, and the exception if one
  escaped.
\<close>

datatype error = QuotaExceededError | TypeError | SyntaxError

text \<open>
  \<^verbatim>\<open>a || b\<close> on a value that is a string, \<^verbatim>\<open>null\<close> or \<^verbatim>\<open>undefined\<close> (\<open>None\<close>): the right
  operand is taken when the left one is missing or the empty string.
\<close>

definition or_else :: "string option \<Rightarrow> string \<Rightarrow> string" where
  "or_else v d = (case v of None \<Rightarrow> d | Some x \<Rightarrow> if x \<noteq> [] then x else d)"

definition truthy :: "string option \<Rightarrow> bool" where
  "truthy v = (case v of None \<Rightarrow> False | Some x \<Rightarrow> x \<noteq> [])"

subsection \<open>StorageManager\<close>

text \<open>
  \<^verbatim>\<open>pendingWrites\<close> is a JavaScript \<^verbatim>\<open>Map\<close>: it keeps insertion order, \<^verbatim>\<open>set\<close> on a key that
  is present replaces the value in place (\<^const>\<open>AList.update\<close>), \<^verbatim>\<open>delete\<close> is
  \<^const>\<open>AList.delete\<close>, and \<^verbatim>\<open>forEach\<close> visits the entries in order. \<^verbatim>\<open>localStorage\<close> is the
  durable store of the browser, kept in the same record. \<^verbatim>\<open>writeTimeout\<close> records whether
  the field holds a timer handle; the expiry of the timer is the separate event
  \<open>flushWrites\<close>.

  Every value the program queues is a string, except the active tab index, a number;
  \<open>saveTabsToStorage\<close> below queues its decimal rendering, which is what \<^verbatim>\<open>localStorage\<close>
  holds after the flush and what \<^verbatim>\<open>parseInt\<close> reads back.
\<close>

record StorageManager =
  pendingWrites :: "(string \<times> string) list"
  writeTimeout :: bool
  localStorage :: "(string \<times> string) list"

text \<open>
  \<^verbatim>\<open>localStorage.setItem\<close> throws when the browser refuses the write (quota exceeded).
  Which writes it refuses is outside the program: \<open>fits\<close> says whether the durable store
  may hold the given items.
\<close>

definition setItem ::
  "((string \<times> string) list \<Rightarrow> bool) \<Rightarrow> string \<Rightarrow> string \<Rightarrow> (string \<times> string) list
     \<Rightarrow> error + (string \<times> string) list" where
  "setItem fits key val items =
     (let items' = AList.update key val items
      in if fits items' then Inr items' else Inl QuotaExceededError)"

text \<open>A store that holds at most \<open>limit\<close> characters of keys and values.\<close>

definition within_quota :: "nat \<Rightarrow> (string \<times> string) list \<Rightarrow> bool" where
  "within_quota limit items \<longleftrightarrow> sum_list (map (\<lambda>(k, v). length k + length v) items) \<le> limit"

definition getItem :: "string \<Rightarrow> (string \<times> string) list \<Rightarrow> string option" where
  "getItem key items = map_of items key"

definition removeItem :: "string \<Rightarrow> (string \<times> string) list \<Rightarrow> (string \<times> string) list" where
  "removeItem key items = AList.delete key items"

definition saveToLocalStorage :: "string \<Rightarrow> string \<Rightarrow> StorageManager \<Rightarrow> StorageManager" where
  "saveToLocalStorage key val sm =
     sm\<lparr>pendingWrites := AList.update key val (pendingWrites sm), writeTimeout := True\<rparr>"

text \<open>
  The \<^verbatim>\<open>forEach\<close> of \<open>flushWrites\<close>: one \<^verbatim>\<open>setItem\<close> per pending entry, in order; the first
  one that throws ends the loop, and the items written before it stay written.
\<close>

fun flushEach ::
  "((string \<times> string) list \<Rightarrow> bool) \<Rightarrow> (string \<times> string) list \<Rightarrow> (string \<times> string) list
     \<Rightarrow> error option \<times> (string \<times> string) list" where
  "flushEach fits [] items = (None, items)"
| "flushEach fits ((key, val) # rest) items =
     (case setItem fits key val items of
        Inl e \<Rightarrow> (Some e, items)
      | Inr items' \<Rightarrow> flushEach fits rest items')"

definition flushWrites ::
  "((string \<times> string) list \<Rightarrow> bool) \<Rightarrow> StorageManager \<Rightarrow> error option \<times> StorageManager" where
  "flushWrites fits sm =
     (case flushEach fits (pendingWrites sm) (localStorage sm) of
        (Some e, items) \<Rightarrow> (Some e, sm\<lparr>localStorage := items\<rparr>)
      | (None, items) \<Rightarrow>
          (None, sm\<lparr>localStorage := items, pendingWrites := [], writeTimeout := False\<rparr>))"

text \<open>
  \<^verbatim>\<open>pendingWrites.has(key)\<close> and \<^verbatim>\<open>pendingWrites.get(key)\<close>, then
  \<^verbatim>\<open>localStorage.getItem(key) || defaultValue\<close>, where \<^verbatim>\<open>getItem\<close> gives \<^verbatim>\<open>null\<close> for a missing key.
\<close>

definition getFromLocalStorage :: "string \<Rightarrow> string \<Rightarrow> StorageManager \<Rightarrow> string" where
  "getFromLocalStorage key defaultValue sm =
     (if key \<in> fst ` set (pendingWrites sm) then the (map_of (pendingWrites sm) key)
      else or_else (getItem key (localStorage sm)) defaultValue)"

definition removeFromLocalStorage :: "string \<Rightarrow> StorageManager \<Rightarrow> StorageManager" where
  "removeFromLocalStorage key sm =
     sm\<lparr>pendingWrites := AList.delete key (pendingWrites sm),
        localStorage := removeItem key (localStorage sm)\<rparr>"

subsection \<open>HistoryManager\<close>

record HistoryManager =
  past :: "string list"
  future :: "string list"
  current :: string
  isNavigating :: bool
  maxHistorySize :: nat

definition HistoryManager_new :: HistoryManager where
  "HistoryManager_new =
     \<lparr>past = [], future = [], current = [], isNavigating = False, maxHistorySize = 50\<rparr>"

text \<open>
  \<^verbatim>\<open>past.push(x)\<close> appends at the end, \<^verbatim>\<open>past.shift()\<close> removes the first element,
  \<^verbatim>\<open>past.pop()\<close> removes and returns the last one, \<^verbatim>\<open>future.unshift(x)\<close> puts \<open>x\<close> in
  front and \<^verbatim>\<open>future.shift()\<close> removes and returns the first element.
\<close>

definition pushState :: "string \<Rightarrow> HistoryManager \<Rightarrow> HistoryManager" where
  "pushState newState h =
     (if isNavigating h then h\<lparr>isNavigating := False\<rparr>
      else
        let h1 =
          (if current h \<noteq> [] \<and> current h \<noteq> newState
              \<and> \<bar>int (length (current h)) - int (length newState)\<bar> > 5
           then
             let h' = h\<lparr>past := past h @ [current h]\<rparr>
             in if length (past h') > maxHistorySize h' then h'\<lparr>past := tl (past h')\<rparr> else h'
           else h)
        in h1\<lparr>current := newState, future := []\<rparr>)"

definition undo :: "HistoryManager \<Rightarrow> string option \<times> HistoryManager" where
  "undo h =
     (if length (past h) > 0 then
        let h1 = h\<lparr>isNavigating := True\<rparr>;
            h2 = h1\<lparr>future := current h1 # future h1\<rparr>;
            h3 = h2\<lparr>current := last (past h2), past := butlast (past h2)\<rparr>
        in (Some (current h3), h3)
      else (None, h))"

definition redo :: "HistoryManager \<Rightarrow> string option \<times> HistoryManager" where
  "redo h =
     (if length (future h) > 0 then
        let h1 = h\<lparr>isNavigating := True\<rparr>;
            h2 = h1\<lparr>past := past h1 @ [current h1]\<rparr>;
            h3 = h2\<lparr>current := hd (future h2), future := tl (future h2)\<rparr>
        in (Some (current h3), h3)
      else (None, h))"

text \<open>Sequences of calls on one history manager, starting from a fresh one.\<close>

datatype history_call = PushState string | Undo | Redo

fun history_step :: "HistoryManager \<Rightarrow> history_call \<Rightarrow> HistoryManager" where
  "history_step h (PushState newState) = pushState newState h"
| "history_step h Undo = snd (undo h)"
| "history_step h Redo = snd (redo h)"

definition history_run :: "history_call list \<Rightarrow> HistoryManager" where
  "history_run calls = foldl history_step HistoryManager_new calls"

text \<open>
  The sequences of \<open>pushState\<close> calls in which every new text differs in length from the
  text that is current at that call by more than the threshold of 5.
\<close>

fun beyond_threshold :: "HistoryManager \<Rightarrow> string list \<Rightarrow> bool" where
  "beyond_threshold h [] = True"
| "beyond_threshold h (t # ts) =
     (\<bar>int (length (current h)) - int (length t)\<bar> > 5 \<and> beyond_threshold (pushState t h) ts)"

definition push_all :: "string list \<Rightarrow> HistoryManager" where
  "push_all ts = foldl (\<lambda>h t. pushState t h) HistoryManager_new ts"

text \<open>The condition under which \<open>pushState\<close> records the outgoing text.\<close>

definition records :: "HistoryManager \<Rightarrow> string \<Rightarrow> bool" where
  "records h newState \<longleftrightarrow>
     current h \<noteq> [] \<and> current h \<noteq> newState
       \<and> \<bar>int (length (current h)) - int (length newState)\<bar> > 5"

text \<open>
  The bound on the history: \<open>maxHistorySize\<close> is 50 and \<open>past\<close> and \<open>future\<close> together
  hold at most 50 snapshots.
\<close>

definition within_bound :: "HistoryManager \<Rightarrow> bool" where
  "within_bound h \<longleftrightarrow> maxHistorySize h = 50 \<and> length (past h) + length (future h) \<le> 50"

text \<open>Fifty-two pushes that alternate between a text of 7 characters and one of 1.\<close>

definition alternating_pushes :: "history_call list" where
  "alternating_pushes = concat (replicate 26 [PushState ''aaaaaaa'', PushState ''a''])"

subsection \<open>The page: documents, panels and the host\<close>

text \<open>
  A document (tab) is \<^verbatim>\<open>{ id, title }\<close>; its text lives in the store under its id. The
  field \<^verbatim>\<open>id\<close> is \<open>tabId\<close> here.
\<close>

record tab =
  tabId :: string
  title :: string

text \<open>
  The enrichment service. A request is method, URL, bearer credential and JSON body (the
  fields of \<^verbatim>\<open>requestBody\<close>). The body of an answer is read through
  \<^verbatim>\<open>response.status_url\<close> after a submission and through
  \<^verbatim>\<open>response.data.attributes.status\<close>, \<^verbatim>\<open>.result\<close> and \<^verbatim>\<open>.message\<close> after a status read; an
  answer always has \<^verbatim>\<open>data.attributes\<close>. \<open>result\<close> is the value \<^verbatim>\<open>JSON.parse\<close> gives for the
  result text: an object with string fields, an array of strings, or a \<^verbatim>\<open>SyntaxError\<close> with
  its message.
\<close>

datatype request = Request string string string "(string \<times> string) list option"

datatype json_result = JObject "(string \<times> string) list" | JArray "string list" | JUnparsable string

record api_response =
  status_url :: "string option"
  status :: string
  result :: json_result
  message :: "string option"

text \<open>
  What the browser and the service compute is taken as given: \<^verbatim>\<open>JSON.stringify\<close> and
  \<^verbatim>\<open>JSON.parse\<close> on the tab list (\<open>None\<close>: \<^verbatim>\<open>JSON.parse\<close> throws), \<^verbatim>\<open>parseInt\<close> (\<open>None\<close>: \<^verbatim>\<open>NaN\<close>),
  \<^verbatim>\<open>String.prototype.trim\<close>, the SHA-256 digest in hexadecimal, whether \<^verbatim>\<open>localStorage\<close> accepts
  a write, and the outcome of \<^verbatim>\<open>callSharpApi\<close> for a request given the requests made so far:
  the parsed body it returns, or the message of the error it throws.
\<close>

record host =
  JSON_stringify :: "tab list \<Rightarrow> string"
  JSON_parse :: "string \<Rightarrow> tab list option"
  parseInt :: "string \<Rightarrow> int option"
  trim :: "string \<Rightarrow> string"
  sha256_hex :: "string \<Rightarrow> string"
  quota :: "(string \<times> string) list \<Rightarrow> bool"
  sharpApi :: "request list \<Rightarrow> request \<Rightarrow> string + api_response"

text \<open>
  The state of the page: the store, the text of the \<^verbatim>\<open>#note\<close> element, the text of each
  \<^verbatim>\<open>.rightTabContent#section .ai-note\<close> element by section id (\<open>aiNotes\<close>; an element is
  named by its section id), the alerts shown, whether the credential dialog is open, the
  fields of \<^verbatim>\<open>TabManager\<close> (\<open>tabs\<close>, \<open>tabHistories\<close>, \<open>currentTabIndex\<close>), the fields of
  \<^verbatim>\<open>SectionManager\<close>, and the requests sent so far. \<open>translationManager\<close> is \<open>None\<close> while
  the field is \<^verbatim>\<open>null\<close> and otherwise holds the value of the language select.
\<close>

record page =
  storage :: StorageManager
  noteText :: string
  aiNotes :: "(string \<times> string) list"
  alerts :: "string list"
  modalShown :: bool
  tabs :: "tab list"
  tabHistories :: "(string \<times> HistoryManager) list"
  currentTabIndex :: int
  currentSectionElement :: "string option"
  currentNoteId :: "string option"
  activeSection :: "string option"
  translationManager :: "string option"
  apiCache :: "(string \<times> string) list"
  pollingTimeout :: bool
  requests :: "request list"

text \<open>\<^verbatim>\<open>xs[i]\<close>: \<^verbatim>\<open>undefined\<close> (\<open>None\<close>) outside the array.\<close>

definition at_index :: "'a list \<Rightarrow> int \<Rightarrow> 'a option" where
  "at_index xs i = (if 0 \<le> i \<and> i < int (length xs) then Some (xs ! nat i) else None)"

text \<open>
  \<^verbatim>\<open>xs.splice(index, 1)\<close>: a negative index counts from the end, the start is clamped to
  the array, and at most one element is removed.
\<close>

definition splice1 :: "int \<Rightarrow> 'a list \<Rightarrow> 'a list" where
  "splice1 index xs =
     (let n = int (length xs);
          start = (if index < 0 then max (n + index) 0 else min index n)
      in take (nat start) xs @ drop (nat start + 1) xs)"

text \<open>The decimal rendering of a number in a template string or by \<^verbatim>\<open>String\<close>.\<close>

fun decimal :: "nat \<Rightarrow> string" where
  "decimal n =
     (if n < 10 then [''0123456789'' ! n]
      else decimal (n div 10) @ [''0123456789'' ! (n mod 10)])"

definition number_string :: "int \<Rightarrow> string" where
  "number_string i = (if i < 0 then ''-'' @ decimal (nat (- i)) else decimal (nat i))"

subsection \<open>SectionManager\<close>

text \<open>
  \<open>setContent\<close> replaces the text of the element (select all, delete, insert).
  An assignment to \<^verbatim>\<open>this.currentSectionElement.innerText\<close> throws a \<^verbatim>\<open>TypeError\<close> while the
  field is \<^verbatim>\<open>null\<close>.
\<close>

definition setContent :: "string \<Rightarrow> string \<Rightarrow> page \<Rightarrow> page" where
  "setContent element newText s = s\<lparr>aiNotes := AList.update element newText (aiNotes s)\<rparr>"

definition innerText :: "string \<Rightarrow> page \<Rightarrow> string" where
  "innerText element s = (case map_of (aiNotes s) element of None \<Rightarrow> [] | Some t \<Rightarrow> t)"

definition setInnerText :: "string \<Rightarrow> page \<Rightarrow> error option \<times> page" where
  "setInnerText text s =
     (case currentSectionElement s of
        None \<Rightarrow> (Some TypeError, s)
      | Some element \<Rightarrow> (None, s\<lparr>aiNotes := AList.update element text (aiNotes s)\<rparr>))"

text \<open>
  The key of an enrichment result, as \<open>saveSectionContent\<close> and \<open>loadSectionContent\<close> both
  compute it: \<^verbatim>\<open>{noteId}-{section}\<close>, and \<^verbatim>\<open>{noteId}-{section}-{language}\<close> for the translation
  section once the translation manager is set.
\<close>

definition sectionKey :: "string \<Rightarrow> string \<Rightarrow> page \<Rightarrow> string" where
  "sectionKey noteId section s =
     (case translationManager s of
        Some language \<Rightarrow>
          if section = ''translation'' then noteId @ ''-'' @ section @ ''-'' @ language
          else noteId @ ''-'' @ section
      | None \<Rightarrow> noteId @ ''-'' @ section)"

definition saveSectionContent :: "page \<Rightarrow> page" where
  "saveSectionContent s =
     (if \<not> truthy (currentNoteId s) \<or> currentSectionElement s = None \<or> \<not> truthy (activeSection s)
      then s
      else
        let key = sectionKey (the (currentNoteId s)) (the (activeSection s)) s;
            content = innerText (the (currentSectionElement s)) s
        in s\<lparr>storage := saveToLocalStorage key content (storage s)\<rparr>)"

definition loadSectionContent :: "string option \<Rightarrow> page \<Rightarrow> page" where
  "loadSectionContent section s =
     (if \<not> truthy (currentNoteId s) \<or> \<not> truthy section then s
      else
        let key = sectionKey (the (currentNoteId s)) (the section) s;
            content = getFromLocalStorage key [] (storage s)
        in if the section \<in> fst ` set (aiNotes s) then setContent (the section) content s
           else s)"

definition setNoteId :: "string \<Rightarrow> page \<Rightarrow> page" where
  "setNoteId noteId s = loadSectionContent (activeSection s) (s\<lparr>currentNoteId := Some noteId\<rparr>)"

definition switchSection :: "string \<Rightarrow> page \<Rightarrow> page" where
  "switchSection section s =
     (let s1 = s\<lparr>activeSection := Some section\<rparr>
      in if section \<notin> fst ` set (aiNotes s1) then s1
         else loadSectionContent (Some section) (s1\<lparr>currentSectionElement := Some section\<rparr>))"

text \<open>
  \<open>generateCacheKey\<close>: section, note id (\<^verbatim>\<open>null\<close> is rendered as \<^verbatim>\<open>null\<close>), the first 16
  hexadecimal digits of the digest, and the language for the translation section, where
  a missing translation manager is a \<^verbatim>\<open>TypeError\<close>.
\<close>

definition generateCacheKey :: "host \<Rightarrow> string \<Rightarrow> page \<Rightarrow> error + string" where
  "generateCacheKey H content s =
     (let hashHex = sha256_hex H content;
          section = (case activeSection s of None \<Rightarrow> ''null'' | Some x \<Rightarrow> x);
          noteId = (case currentNoteId s of None \<Rightarrow> ''null'' | Some x \<Rightarrow> x)
      in if activeSection s = Some ''translation'' then
           (case translationManager s of
              None \<Rightarrow> Inl TypeError
            | Some language \<Rightarrow>
                Inr (section @ ''-'' @ noteId @ ''-'' @ take 16 hashHex @ ''-'' @ language))
         else Inr (section @ ''-'' @ noteId @ ''-'' @ take 16 hashHex @ ''-''))"

definition apiUrl :: "string \<Rightarrow> string" where
  "apiUrl path = (if take 4 path = ''http'' then path else ''https://sharpapi.com/api'' @ path)"

definition callSharpApi ::
  "host \<Rightarrow> string \<Rightarrow> string \<Rightarrow> string \<Rightarrow> (string \<times> string) list option \<Rightarrow> page
     \<Rightarrow> (string + api_response) \<times> page" where
  "callSharpApi H method path apiKey body s =
     (let url = apiUrl path;
          req = Request method url apiKey body
      in (sharpApi H (requests s) req, s\<lparr>requests := requests s @ [req]\<rparr>))"

text \<open>\<^verbatim>\<open>result.name\<close> (\<^verbatim>\<open>undefined\<close> on an array) and \<^verbatim>\<open>result.join(', ')\<close>.\<close>

definition field :: "json_result \<Rightarrow> string \<Rightarrow> string option" where
  "field r name = (case r of JObject fs \<Rightarrow> map_of fs name | _ \<Rightarrow> None)"

fun join_comma :: "string list \<Rightarrow> string" where
  "join_comma [] = []"
| "join_comma [x] = x"
| "join_comma (x # y # ys) = x @ '', '' @ join_comma (y # ys)"

definition finalResult :: "string option \<Rightarrow> json_result \<Rightarrow> string" where
  "finalResult section r =
     (if section = Some ''summary'' then or_else (field r ''summary'') ''No summary found.''
      else if section = Some ''translation'' then or_else (field r ''content'') ''No translation found.''
      else if section = Some ''grammar'' then or_else (field r ''proofread'') ''No proofread result found.''
      else if section = Some ''rewriting'' then or_else (field r ''paraphrase'') ''No rewritten text found.''
      else if section = Some ''keywords'' then
        (case r of JArray ks \<Rightarrow> join_comma ks | _ \<Rightarrow> ''No keywords found.'')
      else ''No result found.'')"

definition maxRetries :: nat where
  "maxRetries = 10"

text \<open>
  \<open>pollForStatus\<close>, with the polls that its timer schedules run one after the other, as
  they are when no other event comes in between. An exception inside the \<^verbatim>\<open>try\<close> block goes
  to the \<^verbatim>\<open>catch\<close> clause, which writes the message into the panel; while
  \<^verbatim>\<open>currentSectionElement\<close> is \<^verbatim>\<open>null\<close> that write throws again, so the \<^verbatim>\<open>TypeError\<close> escapes.
  \<open>jobCompleted\<close> is the branch for a status \<^verbatim>\<open>completed\<close> or \<^verbatim>\<open>success\<close>.
\<close>

definition jobCompleted :: "string \<Rightarrow> api_response \<Rightarrow> page \<Rightarrow> error option \<times> page" where
  "jobCompleted cacheKey response s =
     (case result response of
        JUnparsable msg \<Rightarrow> setInnerText (''Polling failed: '' @ msg) s
      | parsed \<Rightarrow>
          (case currentSectionElement s of
             None \<Rightarrow> (Some TypeError, s)
           | Some element \<Rightarrow>
               let final = finalResult (activeSection s) parsed;
                   s2 = setContent element final s;
                   s3 = s2\<lparr>apiCache := AList.update cacheKey final (apiCache s2)\<rparr>
               in (None, saveSectionContent s3)))"

function pollForStatus ::
  "host \<Rightarrow> string \<Rightarrow> string \<Rightarrow> string \<Rightarrow> nat \<Rightarrow> page \<Rightarrow> error option \<times> page" where
  "pollForStatus H statusUrl apiKey cacheKey retries s =
     (if retries \<ge> maxRetries then setInnerText ''Job timed out. Please try again.'' s
      else
        (case callSharpApi H ''GET'' statusUrl apiKey None s of
           (Inl msg, s1) \<Rightarrow> setInnerText (''Polling failed: '' @ msg) s1
         | (Inr response, s1) \<Rightarrow>
             if status response = ''completed'' \<or> status response = ''success'' then
               jobCompleted cacheKey response s1
             else if status response = ''failed'' then
               setInnerText (''Job failed: '' @ or_else (message response) ''Unknown error'') s1
             else
               pollForStatus H statusUrl apiKey cacheKey (retries + 1)
                 (s1\<lparr>pollingTimeout := True\<rparr>)))"
  by pat_completeness auto
termination
  by (relation "measure (\<lambda>(H, statusUrl, apiKey, cacheKey, retries, s). maxRetries - retries)") auto

declare pollForStatus.simps [simp del]

text \<open>
  \<open>handleAiWrite\<close>. The polling it starts is not awaited, so an exception of
  \<open>pollForStatus\<close> is not caught here; a thrown request goes to the \<^verbatim>\<open>catch\<close> clause.
  \<open>submitJob\<close> is the \<^verbatim>\<open>try\<close> block. The translation manager is set where the request body
  reads it, since \<open>generateCacheKey\<close> has read it before.
\<close>

definition apiPath :: "string \<Rightarrow> string option" where
  "apiPath section =
     (if section = ''summary'' then Some ''/v1/content/summarize''
      else if section = ''translation'' then Some ''/v1/content/translate''
      else if section = ''grammar'' then Some ''/v1/content/proofread''
      else if section = ''rewriting'' then Some ''/v1/content/paraphrase''
      else if section = ''keywords'' then Some ''/v1/content/keywords''
      else None)"

definition submitJob ::
  "host \<Rightarrow> string \<Rightarrow> string \<Rightarrow> string \<Rightarrow> string \<Rightarrow> page \<Rightarrow> error option \<times> page" where
  "submitJob H section apiKey noteContent cacheKey s =
     (case apiPath section of
        None \<Rightarrow> setInnerText ''Function not implemented for this section.'' s
      | Some path \<Rightarrow>
          let requestBody =
                (if section = ''translation''
                 then [(''content'', noteContent), (''language'', the (translationManager s))]
                 else [(''content'', noteContent)])
          in (case callSharpApi H ''POST'' path apiKey (Some requestBody) s of
                (Inl msg, s1) \<Rightarrow> setInnerText (''Error: '' @ msg) s1
              | (Inr response, s1) \<Rightarrow>
                  if truthy (status_url response) then
                    (case setInnerText ''Job accepted. Waiting for result...'' s1 of
                       (Some e, s2) \<Rightarrow> (Some e, s2)
                     | (None, s2) \<Rightarrow>
                         pollForStatus H (the (status_url response)) apiKey cacheKey 0 s2)
                  else (None, s1)))"

definition handleAiWrite :: "host \<Rightarrow> page \<Rightarrow> error option \<times> page" where
  "handleAiWrite H s =
     (case activeSection s of
        None \<Rightarrow> (None, s)
      | Some section \<Rightarrow>
          let apiKey = getFromLocalStorage ''apiKey'' [] (storage s)
          in if apiKey = [] then (None, s\<lparr>modalShown := True\<rparr>)
             else
               let noteContent = trim H (noteText s)
               in if noteContent = [] then
                    (None, s\<lparr>alerts := alerts s
                               @ [''Please write some content in the main notepad first.'']\<rparr>)
                  else
                    (case generateCacheKey H noteContent s of
                       Inl e \<Rightarrow> (Some e, s)
                     | Inr cacheKey \<Rightarrow>
                         if truthy (map_of (apiCache s) cacheKey) then
                           (case currentSectionElement s of
                              None \<Rightarrow> (Some TypeError, s)
                            | Some element \<Rightarrow>
                                (None, saveSectionContent
                                         (setContent element (the (map_of (apiCache s) cacheKey)) s)))
                         else
                           (case setInnerText ''Loading...'' s of
                              (Some e, s1) \<Rightarrow> (Some e, s1)
                            | (None, s1) \<Rightarrow> submitJob H section apiKey noteContent cacheKey s1)))"

text \<open>
  What an enrichment run leaves alone: the tabs, their histories, the active index, the
  text of the note, the selected panel, note, section and language, the durable store,
  and every pending write whose key has no hyphen (the keys written are those of
  \<open>sectionKey\<close>).
\<close>

definition enrichment_frame :: "page \<Rightarrow> page \<Rightarrow> bool" where
  "enrichment_frame s s' \<longleftrightarrow>
     tabs s' = tabs s \<and> tabHistories s' = tabHistories s
       \<and> currentTabIndex s' = currentTabIndex s \<and> noteText s' = noteText s
       \<and> currentSectionElement s' = currentSectionElement s
       \<and> currentNoteId s' = currentNoteId s \<and> activeSection s' = activeSection s
       \<and> translationManager s' = translationManager s
       \<and> localStorage (storage s') = localStorage (storage s)
       \<and> (\<forall>k. CHR ''-'' \<notin> set k \<longrightarrow>
              map_of (pendingWrites (storage s')) k = map_of (pendingWrites (storage s)) k)"

subsection \<open>TabManager\<close>

definition saveTabsToStorage :: "host \<Rightarrow> page \<Rightarrow> page" where
  "saveTabsToStorage H s =
     (let sm1 = saveToLocalStorage ''tabs'' (JSON_stringify H (tabs s)) (storage s);
          sm2 = saveToLocalStorage ''currentTabIndex'' (number_string (currentTabIndex s)) sm1
      in s\<lparr>storage := sm2\<rparr>)"

text \<open>
  \<^verbatim>\<open>this.tabs[i].id\<close> throws a \<^verbatim>\<open>TypeError\<close> when the index is outside the array, and so does a
  method call on \<^verbatim>\<open>this.tabHistories[id]\<close> when the id has no history manager.
\<close>

definition saveCurrentTabContent :: "page \<Rightarrow> error option \<times> page" where
  "saveCurrentTabContent s =
     (if currentTabIndex s = - 1 then (None, s)
      else
        (case at_index (tabs s) (currentTabIndex s) of
           None \<Rightarrow> (Some TypeError, s)
         | Some currentTab \<Rightarrow>
             let currentContent = noteText s;
                 s1 = s\<lparr>storage := saveToLocalStorage (tabId currentTab) currentContent (storage s)\<rparr>
             in (case map_of (tabHistories s1) (tabId currentTab) of
                   None \<Rightarrow> (Some TypeError, s1)
                 | Some historyManager \<Rightarrow>
                     (None, s1\<lparr>tabHistories :=
                                 AList.update (tabId currentTab)
                                   (pushState currentContent historyManager) (tabHistories s1)\<rparr>))))"

definition switchTab :: "host \<Rightarrow> int \<Rightarrow> page \<Rightarrow> error option \<times> page" where
  "switchTab H index s =
     (if currentTabIndex s = index then (None, s)
      else
        (case saveCurrentTabContent s of
           (Some e, s1) \<Rightarrow> (Some e, s1)
         | (None, s1) \<Rightarrow>
             let s2 = s1\<lparr>currentTabIndex := index\<rparr>
             in (case at_index (tabs s2) (currentTabIndex s2) of
                   None \<Rightarrow> (Some TypeError, s2)
                 | Some currentTab \<Rightarrow>
                     (case map_of (tabHistories s2) (tabId currentTab) of
                        None \<Rightarrow> (Some TypeError, s2)
                      | Some historyManager \<Rightarrow>
                          let newContent =
                                (if current historyManager \<noteq> [] then current historyManager
                                 else getFromLocalStorage (tabId currentTab) [] (storage s2));
                              s3 = s2\<lparr>noteText := newContent\<rparr>;
                              s4 = s3\<lparr>tabHistories :=
                                       AList.update (tabId currentTab)
                                         (historyManager\<lparr>current := newContent\<rparr>) (tabHistories s3)\<rparr>;
                              s5 = setNoteId (tabId currentTab) s4
                          in (None, saveTabsToStorage H s5)))))"

text \<open>\<open>createNewTab\<close> at the time \<open>now\<close> that \<^verbatim>\<open>Date.now()\<close> gives.\<close>

definition createNewTab :: "host \<Rightarrow> nat \<Rightarrow> page \<Rightarrow> error option \<times> page" where
  "createNewTab H now s =
     (case (if currentTabIndex s \<noteq> - 1 then saveCurrentTabContent s else (None, s)) of
        (Some e, s1) \<Rightarrow> (Some e, s1)
      | (None, s1) \<Rightarrow>
          let newTabId = ''note-'' @ decimal now;
              newTab = \<lparr>tabId = newTabId, title = ''Note '' @ decimal (length (tabs s1) + 1)\<rparr>;
              s2 = s1\<lparr>tabs := tabs s1 @ [newTab]\<rparr>;
              s3 = s2\<lparr>tabHistories := AList.update newTabId HistoryManager_new (tabHistories s2)\<rparr>
          in switchTab H (int (length (tabs s3)) - 1) s3)"

definition sections :: "string list" where
  "sections = [''summary'', ''translation'', ''grammar'', ''rewriting'', ''keywords'']"

definition closeTab :: "host \<Rightarrow> int \<Rightarrow> page \<Rightarrow> error option \<times> page" where
  "closeTab H index s =
     (if length (tabs s) \<le> 1 then
        (None, s\<lparr>alerts := alerts s @ [''Cannot delete the last tab.'']\<rparr>)
      else
        let tabToClose = at_index (tabs s) index;
            wasActiveTab = (index = currentTabIndex s);
            s1 = s\<lparr>tabs := splice1 index (tabs s)\<rparr>
        in (case tabToClose of
              None \<Rightarrow> (Some TypeError, s1)
            | Some closed \<Rightarrow>
                let s2 = s1\<lparr>tabHistories := AList.delete (tabId closed) (tabHistories s1)\<rparr>;
                    s3 = s2\<lparr>storage := removeFromLocalStorage (tabId closed) (storage s2)\<rparr>;
                    s4 = s3\<lparr>storage :=
                             foldl (\<lambda>sm section.
                                      removeFromLocalStorage (tabId closed @ ''-'' @ section) sm)
                                   (storage s3) sections\<rparr>;
                    s5 = (if wasActiveTab then
                            (if index \<ge> int (length (tabs s4))
                             then s4\<lparr>currentTabIndex := int (length (tabs s4)) - 1\<rparr>
                             else s4\<lparr>currentTabIndex := index\<rparr>)
                          else if index < currentTabIndex s4
                          then s4\<lparr>currentTabIndex := currentTabIndex s4 - 1\<rparr>
                          else s4);
                    s6 = saveTabsToStorage H s5
                in if wasActiveTab then
                     switchTab H
                       (if index \<ge> int (length (tabs s6)) then int (length (tabs s6)) - 1 else index)
                       (s6\<lparr>currentTabIndex := - 1\<rparr>)
                   else (None, s6)))"

text \<open>The undo and redo of \<^verbatim>\<open>TabManager\<close>, bound to the keyboard.\<close>

definition undo_tab :: "page \<Rightarrow> error option \<times> page" where
  "undo_tab s =
     (if currentTabIndex s = - 1 then (None, s)
      else
        (case at_index (tabs s) (currentTabIndex s) of
           None \<Rightarrow> (Some TypeError, s)
         | Some currentTab \<Rightarrow>
             (case map_of (tabHistories s) (tabId currentTab) of
                None \<Rightarrow> (Some TypeError, s)
              | Some historyManager \<Rightarrow>
                  (case undo historyManager of
                     (previousState, h') \<Rightarrow>
                       let s1 = s\<lparr>tabHistories := AList.update (tabId currentTab) h' (tabHistories s)\<rparr>
                       in (case previousState of
                             None \<Rightarrow> (None, s1)
                           | Some text \<Rightarrow> (None, s1\<lparr>noteText := text\<rparr>))))))"

definition redo_tab :: "page \<Rightarrow> error option \<times> page" where
  "redo_tab s =
     (if currentTabIndex s = - 1 then (None, s)
      else
        (case at_index (tabs s) (currentTabIndex s) of
           None \<Rightarrow> (Some TypeError, s)
         | Some currentTab \<Rightarrow>
             (case map_of (tabHistories s) (tabId currentTab) of
                None \<Rightarrow> (Some TypeError, s)
              | Some historyManager \<Rightarrow>
                  (case redo historyManager of
                     (nextState, h') \<Rightarrow>
                       let s1 = s\<lparr>tabHistories := AList.update (tabId currentTab) h' (tabHistories s)\<rparr>
                       in (case nextState of
                             None \<Rightarrow> (None, s1)
                           | Some text \<Rightarrow> (None, s1\<lparr>noteText := text\<rparr>))))))"

text \<open>
  The constructor of \<^verbatim>\<open>TabManager\<close>, run on the page as it is loaded: a fresh
  \<^verbatim>\<open>SectionManager\<close>, no tabs, the store and the panels as given. The defaults \<^verbatim>\<open>null\<close> and
  \<^verbatim>\<open>-1\<close> of the two reads are given as the empty string, which is as falsy as \<^verbatim>\<open>null\<close>, and
  as the rendering of \<^verbatim>\<open>-1\<close>, which \<^verbatim>\<open>parseInt\<close> reads as the number does.
\<close>

definition page_loaded :: "StorageManager \<Rightarrow> (string \<times> string) list \<Rightarrow> page" where
  "page_loaded sm elements =
     \<lparr>storage = sm, noteText = [], aiNotes = elements, alerts = [], modalShown = False,
      tabs = [], tabHistories = [], currentTabIndex = - 1,
      currentSectionElement = None, currentNoteId = None, activeSection = None,
      translationManager = None, apiCache = [], pollingTimeout = False, requests = []\<rparr>"

definition TabManager_new :: "host \<Rightarrow> nat \<Rightarrow> page \<Rightarrow> error option \<times> page" where
  "TabManager_new H now s =
     (let savedTabs = getFromLocalStorage ''tabs'' [] (storage s);
          savedTabIndex = getFromLocalStorage ''currentTabIndex'' ''-1'' (storage s)
      in if savedTabs \<noteq> [] then
           (case JSON_parse H savedTabs of
              None \<Rightarrow> (Some SyntaxError, s)
            | Some parsed \<Rightarrow>
                let s1 = s\<lparr>tabs := parsed\<rparr>;
                    s2 = s1\<lparr>tabHistories :=
                             foldl (\<lambda>hs t.
                                      AList.update (tabId t)
                                        (HistoryManager_new
                                           \<lparr>current := getFromLocalStorage (tabId t) [] (storage s1)\<rparr>)
                                        hs)
                                   (tabHistories s1) (tabs s1)\<rparr>
                in (case parseInt H savedTabIndex of
                      None \<Rightarrow> switchTab H 0 s2
                    | Some index \<Rightarrow>
                        if index \<ge> 0 \<and> index < int (length (tabs s2)) then switchTab H index s2
                        else switchTab H 0 s2))
         else createNewTab H now s)"

subsection \<open>Events of a session\<close>

text \<open>
  What can happen to the page once it is loaded: the three tab operations, typing into
  the note (\<open>Input\<close>), the debounced save of the note (also the paste and drop handlers),
  the undo and redo keys, the choice of an enrichment section, the wiring of the
  translation manager (its select takes the saved language, \<^verbatim>\<open>en\<close> by default) and a change
  of language, an edit of the panel of a section (its input listener saves the current
  panel), the enrichment button, the saving of a credential, and the expiry of the write
  timer.
\<close>

datatype event =
    CreateNewTab nat
  | SwitchTab int
  | CloseTab int
  | Input string
  | SaveNote
  | UndoKey
  | RedoKey
  | SwitchSection string
  | SetTranslationManager
  | ChangeLanguage string
  | EditSection string string
  | AiWrite
  | SaveApiKey string
  | Flush

fun handle :: "host \<Rightarrow> page \<Rightarrow> event \<Rightarrow> error option \<times> page" where
  "handle H s (CreateNewTab now) = createNewTab H now s"
| "handle H s (SwitchTab index) = switchTab H index s"
| "handle H s (CloseTab index) = closeTab H index s"
| "handle H s (Input text) = (None, s\<lparr>noteText := text\<rparr>)"
| "handle H s SaveNote = saveCurrentTabContent s"
| "handle H s UndoKey = undo_tab s"
| "handle H s RedoKey = redo_tab s"
| "handle H s (SwitchSection section) = (None, switchSection section s)"
| "handle H s SetTranslationManager =
     (None, s\<lparr>translationManager :=
                 Some (getFromLocalStorage ''translationLanguage'' ''en'' (storage s))\<rparr>)"
| "handle H s (ChangeLanguage language) =
     (case translationManager s of
        None \<Rightarrow> (None, s)
      | Some old \<Rightarrow>
          let s1 = s\<lparr>translationManager := Some language\<rparr>;
              s2 = s1\<lparr>storage := saveToLocalStorage ''translationLanguage'' language (storage s1)\<rparr>
          in (None, loadSectionContent (Some ''translation'') s2))"
| "handle H s (EditSection section text) =
     (if section \<in> fst ` set (aiNotes s)
      then (None, saveSectionContent (setContent section text s))
      else (None, s))"
| "handle H s AiWrite = handleAiWrite H s"
| "handle H s (SaveApiKey input) =
     (let key = trim H input
      in if key \<noteq> [] then
           (None, s\<lparr>storage := saveToLocalStorage ''apiKey'' key (storage s),
                    alerts := alerts s @ [''API Key saved successfully!''],
                    modalShown := False\<rparr>)
         else (None, s\<lparr>alerts := alerts s @ [''Please enter a valid API key.'']\<rparr>))"
| "handle H s Flush =
     (case flushWrites (quota H) (storage s) of (e, sm) \<Rightarrow> (e, s\<lparr>storage := sm\<rparr>))"

text \<open>
  A session: the constructor on the loaded page, then events one after the other. An
  exception leaves the page as the handler had changed it so far, and the next
  event finds it so. If the constructor throws there is no session.
\<close>

definition run_events :: "host \<Rightarrow> page \<Rightarrow> event list \<Rightarrow> page" where
  "run_events H s events = foldl (\<lambda>s ev. snd (handle H s ev)) s events"

definition session ::
  "host \<Rightarrow> nat \<Rightarrow> StorageManager \<Rightarrow> (string \<times> string) list \<Rightarrow> event list \<Rightarrow> page option" where
  "session H now sm elements events =
     (if fst (TabManager_new H now (page_loaded sm elements)) = None
      then Some (run_events H (snd (TabManager_new H now (page_loaded sm elements))) events)
      else None)"

subsection \<open>Jobs and example hosts\<close>

text \<open>
  A job whose status endpoint answers every status read with a status that is neither
  \<^verbatim>\<open>completed\<close>, \<^verbatim>\<open>success\<close> nor \<^verbatim>\<open>failed\<close>.
\<close>

definition always_pending :: "host \<Rightarrow> string \<Rightarrow> string \<Rightarrow> bool" where
  "always_pending H statusUrl apiKey \<longleftrightarrow>
     (\<forall>reqs. case sharpApi H reqs (Request ''GET'' (apiUrl statusUrl) apiKey None) of
               Inl msg \<Rightarrow> False
             | Inr response \<Rightarrow>
                 status response \<noteq> ''completed'' \<and> status response \<noteq> ''success''
                   \<and> status response \<noteq> ''failed'')"

text \<open>
  Hosts for the examples: a service that accepts every submission as a job and answers
  every status read with the given status and result; \<^verbatim>\<open>trim\<close> and the digest are the
  identity, the tab list is written as its ids, and nothing is read back.
\<close>

definition job_service :: "string \<Rightarrow> json_result \<Rightarrow> request list \<Rightarrow> request \<Rightarrow> string + api_response" where
  "job_service st r reqs req =
     Inr \<lparr>status_url = Some ''https://sharpapi.com/api/v1/job/1'', status = st, result = r,
          message = None\<rparr>"

definition example_host :: "string \<Rightarrow> json_result \<Rightarrow> host" where
  "example_host st r =
     \<lparr>JSON_stringify = (\<lambda>ts. concat (map (\<lambda>t. tabId t @ '';'') ts)),
      JSON_parse = (\<lambda>text. None),
      parseInt = (\<lambda>text. None),
      trim = (\<lambda>text. text),
      sha256_hex = (\<lambda>text. text),
      quota = within_quota 1000,
      sharpApi = job_service st r\<rparr>"

definition empty_store :: StorageManager where
  "empty_store = \<lparr>pendingWrites = [], writeTimeout = False, localStorage = []\<rparr>"

definition panels :: "(string \<times> string) list" where
  "panels = [(''summary'', []), (''translation'', []), (''grammar'', []), (''rewriting'', []),
             (''keywords'', [])]"

text \<open>
  Three example sessions on an empty store: a second tab is created and closed again;
  a text is typed and saved in the first tab before a second tab is created; and, with
  two tabs, the first one is emptied, the emptying is undone and redone, a new text is
  typed, and the second tab is chosen before the debounced save has run.
\<close>

definition two_tabs_closed_to_one :: "page option" where
  "two_tabs_closed_to_one =
     session (example_host ''pending'' (JArray [])) 1 empty_store panels [CreateNewTab 2, CloseTab 1]"

definition typed_then_new_tab :: "page option" where
  "typed_then_new_tab =
     session (example_host ''pending'' (JArray [])) 1 empty_store panels
       [Input ''hello'', SaveNote, CreateNewTab 2]"

definition redone_then_typed :: "page option" where
  "redone_then_typed =
     session (example_host ''pending'' (JArray [])) 1 empty_store panels
       [CreateNewTab 2, SwitchTab 0, Input ''hello world'', SaveNote, Input [], SaveNote,
        UndoKey, RedoKey, Input ''new text'', SwitchTab 1]"

text \<open>
  Three more example sessions, each with a credential saved, a section chosen and a
  text typed: the keywords section with a service that completes with an empty list,
  the summary section with a service that completes with a summary, and the
  translation section (language \<^verbatim>\<open>en\<close>) followed by a run, a flush and a new tab.
\<close>

definition keywords_ready :: "page option" where
  "keywords_ready =
     session (example_host ''completed'' (JArray [])) 1 empty_store panels
       [SaveApiKey ''secret'', SwitchSection ''keywords'', Input ''some text'']"

definition summary_ready :: "page option" where
  "summary_ready =
     session (example_host ''completed'' (JObject [(''summary'', ''short'')])) 1 empty_store panels
       [SaveApiKey ''secret'', SwitchSection ''summary'', Input ''some text'']"

definition translation_saved :: "page option" where
  "translation_saved =
     session (example_host ''completed'' (JObject [(''content'', ''hola'')])) 1 empty_store panels
       [SaveApiKey ''secret'', SetTranslationManager, SwitchSection ''translation'', Input ''hello'',
        AiWrite, Flush, CreateNewTab 2]"

section \<open>HistoryManager: properties\<close>

lemma undo_then_redo:
  assumes "past h \<noteq> []"
  shows "redo (snd (undo h)) = (Some (current h), h\<lparr>isNavigating := True\<rparr>)"
  using assms by (simp add: undo_def redo_def Let_def)

text \<open>
  Claim C1. After any sequence of \<open>pushState\<close> calls from a fresh history manager in which
  each new text differs in length from the current one by more than 5, if \<open>past\<close> is
  non-empty then \<open>undo\<close> followed at once by \<open>redo\<close> gives back the text that was current
  before the undo: \<open>redo\<close> returns it and \<open>current\<close> holds it again (with \<open>past\<close> and
  \<open>future\<close> as they were).
\<close>

theorem undo_redo_restores_current:
  assumes "beyond_threshold HistoryManager_new ts"
    and "h = push_all ts"
    and "past h \<noteq> []"
  shows "current (snd (redo (snd (undo h)))) = current h
       \<and> fst (redo (snd (undo h))) = Some (current h)
       \<and> past (snd (redo (snd (undo h)))) = past h
       \<and> future (snd (redo (snd (undo h)))) = future h"
  using undo_then_redo [OF assms(3)] by simp

theorem undo_redo_restores_current_witness:
  "beyond_threshold HistoryManager_new [''hello world'', ''hi'']
   \<and> past (push_all [''hello world'', ''hi'']) = [''hello world'']
   \<and> current (snd (redo (snd (undo (push_all [''hello world'', ''hi''])))))  = ''hi''"
proof -
  have b: "beyond_threshold HistoryManager_new [''hello world'', ''hi'']"
    by (simp add: HistoryManager_new_def pushState_def)
  have p: "past (push_all [''hello world'', ''hi'']) = [''hello world'']"
    by (simp add: push_all_def HistoryManager_new_def pushState_def)
  have c: "current (push_all [''hello world'', ''hi'']) = ''hi''"
    by (simp add: push_all_def HistoryManager_new_def pushState_def)
  from p have ne: "past (push_all [''hello world'', ''hi'']) \<noteq> []" by simp
  from undo_redo_restores_current [OF b refl ne] b p c show ?thesis by simp
qed

lemma within_bound_new: "within_bound HistoryManager_new"
  by (simp add: within_bound_def HistoryManager_new_def)

lemma within_bound_pushState: "within_bound h \<Longrightarrow> within_bound (pushState t h)"
  by (auto simp: within_bound_def pushState_def Let_def)

lemma within_bound_undo: "within_bound h \<Longrightarrow> within_bound (snd (undo h))"
  by (cases "past h" rule: rev_cases) (auto simp: within_bound_def undo_def Let_def)

lemma within_bound_redo: "within_bound h \<Longrightarrow> within_bound (snd (redo h))"
  by (cases "future h") (auto simp: within_bound_def redo_def Let_def)

lemma within_bound_step: "within_bound h \<Longrightarrow> within_bound (history_step h c)"
  by (cases c) (simp_all add: within_bound_pushState within_bound_undo within_bound_redo)

lemma within_bound_foldl: "within_bound h \<Longrightarrow> within_bound (foldl history_step h calls)"
  by (induction calls arbitrary: h) (simp_all add: within_bound_step)

lemma within_bound_run: "within_bound (history_run calls)"
  by (simp add: history_run_def within_bound_foldl within_bound_new)

lemma pushState_evicts:
  assumes "\<not> isNavigating h" and "records h t" and "length (past h) = maxHistorySize h"
    and "0 < maxHistorySize h"
  shows "past (pushState t h) = tl (past h) @ [current h]"
proof (cases "past h")
  case Nil
  with assms show ?thesis by (simp add: pushState_def records_def Let_def)
next
  case (Cons x xs)
  with assms show ?thesis by (simp add: pushState_def records_def Let_def)
qed

text \<open>
  Claim C2. In every state that \<open>pushState\<close>, \<open>undo\<close> and \<open>redo\<close> calls reach from a fresh
  history manager, \<open>past\<close> holds at most 50 snapshots; and a \<open>pushState\<close> that records
  the outgoing text while \<open>past\<close> already holds 50 drops the oldest snapshot and appends
  the outgoing text, so that \<open>past\<close> still holds 50.
\<close>

theorem past_never_exceeds_bound:
  "length (past (history_run calls)) \<le> 50
   \<and> (\<forall>newState. length (past (history_run calls)) = 50 \<and> \<not> isNavigating (history_run calls)
          \<and> records (history_run calls) newState
        \<longrightarrow> past (pushState newState (history_run calls))
              = tl (past (history_run calls)) @ [current (history_run calls)]
            \<and> length (past (pushState newState (history_run calls))) = 50)"
proof -
  have wb: "within_bound (history_run calls)" by (rule within_bound_run)
  then have le: "length (past (history_run calls)) \<le> 50"
    and mx: "maxHistorySize (history_run calls) = 50"
    by (simp_all add: within_bound_def)
  have "past (pushState t (history_run calls))
          = tl (past (history_run calls)) @ [current (history_run calls)]
      \<and> length (past (pushState t (history_run calls))) = 50"
    if "length (past (history_run calls)) = 50" "\<not> isNavigating (history_run calls)"
      "records (history_run calls) t" for t
  proof -
    have "past (pushState t (history_run calls))
            = tl (past (history_run calls)) @ [current (history_run calls)]"
      using pushState_evicts [of "history_run calls" t] that mx by simp
    then show ?thesis using that(1) by simp
  qed
  with le show ?thesis by blast
qed

lemma alternating_pushes_fill:
  "length (past (history_run alternating_pushes)) = 50
   \<and> \<not> isNavigating (history_run alternating_pushes)
   \<and> current (history_run alternating_pushes) = ''a''"
  by code_simp

theorem past_never_exceeds_bound_witness:
  "length (past (history_run alternating_pushes)) = 50
   \<and> \<not> isNavigating (history_run alternating_pushes)
   \<and> records (history_run alternating_pushes) ''bbbbbbbb''
   \<and> past (pushState ''bbbbbbbb'' (history_run alternating_pushes))
       = tl (past (history_run alternating_pushes)) @ [''a'']"
proof -
  have r: "records (history_run alternating_pushes) ''bbbbbbbb''"
    by code_simp
  from past_never_exceeds_bound [of alternating_pushes] alternating_pushes_fill r show ?thesis
    by simp
qed

text \<open>
  Claim C3. \<open>pushState\<close> with the suppression flag set clears the flag and leaves \<open>past\<close>,
  \<open>future\<close> and \<open>current\<close> as they are. Without the flag it sets \<open>current\<close> to the new text
  and empties \<open>future\<close>, and it appends the old \<open>current\<close> to \<open>past\<close> (dropping the oldest
  snapshot once the bound is exceeded) exactly when the old \<open>current\<close> is non-empty,
  differs from the new text, and differs from it in length by more than 5; otherwise
  \<open>past\<close> is unchanged.
\<close>

theorem pushState_behaviour:
  "(isNavigating h \<longrightarrow>
      \<not> isNavigating (pushState newState h)
      \<and> past (pushState newState h) = past h
      \<and> future (pushState newState h) = future h
      \<and> current (pushState newState h) = current h)
   \<and> (\<not> isNavigating h \<longrightarrow>
      current (pushState newState h) = newState
      \<and> future (pushState newState h) = []
      \<and> \<not> isNavigating (pushState newState h)
      \<and> past (pushState newState h) =
          (if current h \<noteq> [] \<and> current h \<noteq> newState
                \<and> \<bar>int (length (current h)) - int (length newState)\<bar> > 5
           then (if length (past h) < maxHistorySize h then past h @ [current h]
                 else tl (past h @ [current h]))
           else past h))"
  by (simp add: pushState_def Let_def)

theorem pushState_behaviour_witness:
  "past (pushState ''hi'' (HistoryManager_new\<lparr>current := ''hello world''\<rparr>)) = [''hello world'']
   \<and> current (pushState ''hi'' (HistoryManager_new\<lparr>current := ''hello world''\<rparr>)) = ''hi''
   \<and> past (pushState ''hi'' (HistoryManager_new\<lparr>current := ''hello world'', isNavigating := True\<rparr>)) = []
   \<and> current (pushState ''hi'' (HistoryManager_new\<lparr>current := ''hello world'', isNavigating := True\<rparr>))
       = ''hello world''"
  using pushState_behaviour [of "HistoryManager_new\<lparr>current := ''hello world''\<rparr>" "''hi''"]
    pushState_behaviour
      [of "HistoryManager_new\<lparr>current := ''hello world'', isNavigating := True\<rparr>" "''hi''"]
  by (simp add: HistoryManager_new_def)

section \<open>StorageManager: properties\<close>

lemma getFromLocalStorage_cases:
  "getFromLocalStorage key defaultValue sm =
     (case map_of (pendingWrites sm) key of
        Some v \<Rightarrow> v
      | None \<Rightarrow>
          (case map_of (localStorage sm) key of
             Some v \<Rightarrow> if v = [] then defaultValue else v
           | None \<Rightarrow> defaultValue))"
proof (cases "map_of (pendingWrites sm) key")
  case None
  then have "key \<notin> fst ` set (pendingWrites sm)" by (simp add: map_of_eq_None_iff)
  with None show ?thesis
    by (simp add: getFromLocalStorage_def getItem_def or_else_def split: option.splits)
next
  case (Some v)
  then have "key \<in> fst ` set (pendingWrites sm)"
    by (metis map_of_eq_None_iff option.distinct(1))
  with Some show ?thesis by (simp add: getFromLocalStorage_def)
qed

text \<open>
  Claim C8, as stated, fails where the durable store holds the empty string under the
  key and nothing is pending: the read gives the default, not the durable value.
\<close>

theorem read_empty_durable_counterexample:
  "''k'' \<notin> fst ` set (pendingWrites
        \<lparr>pendingWrites = [], writeTimeout = False, localStorage = [(''k'', [])]\<rparr>)
   \<and> getItem ''k'' (localStorage
        \<lparr>pendingWrites = [], writeTimeout = False, localStorage = [(''k'', [])]\<rparr>) = Some []
   \<and> getFromLocalStorage ''k'' ''d''
        \<lparr>pendingWrites = [], writeTimeout = False, localStorage = [(''k'', [])]\<rparr> = ''d''"
  by (simp add: getFromLocalStorage_def getItem_def or_else_def)

text \<open>
  Claim C8, amended. \<open>getFromLocalStorage key defaultValue\<close> returns the pending value of
  the key whenever the pending map has the key, an empty string included; otherwise the
  durable value of the key when there is one and it is not the empty string; otherwise
  the default.
\<close>

theorem read_order:
  "getFromLocalStorage key defaultValue sm =
     (case map_of (pendingWrites sm) key of
        Some v \<Rightarrow> v
      | None \<Rightarrow>
          (case map_of (localStorage sm) key of
             Some v \<Rightarrow> if v = [] then defaultValue else v
           | None \<Rightarrow> defaultValue))"
  by (rule getFromLocalStorage_cases)

theorem read_order_witness:
  "getFromLocalStorage ''k'' ''d''
     \<lparr>pendingWrites = [(''k'', [])], writeTimeout = True, localStorage = [(''k'', ''v'')]\<rparr> = []
   \<and> getFromLocalStorage ''k'' ''d''
     \<lparr>pendingWrites = [], writeTimeout = False, localStorage = [(''k'', ''v'')]\<rparr> = ''v''
   \<and> getFromLocalStorage ''k'' ''d''
     \<lparr>pendingWrites = [], writeTimeout = False, localStorage = []\<rparr> = ''d''"
  using read_order [of "''k''" "''d''"
      "\<lparr>pendingWrites = [(''k'', [])], writeTimeout = True, localStorage = [(''k'', ''v'')]\<rparr>"]
    read_order [of "''k''" "''d''"
      "\<lparr>pendingWrites = [], writeTimeout = False, localStorage = [(''k'', ''v'')]\<rparr>"]
    read_order [of "''k''" "''d''"
      "\<lparr>pendingWrites = [], writeTimeout = False, localStorage = []\<rparr>"]
  by simp

text \<open>
  Claim C9, as stated, fails: when the durable store refuses a write, \<open>flushWrites\<close>
  throws before it clears the pending map, and the entry stays pending.
\<close>

theorem flush_failure_counterexample:
  "fst (flushWrites (within_quota 1)
      \<lparr>pendingWrites = [(''k'', ''v'')], writeTimeout = True, localStorage = []\<rparr>)
     = Some QuotaExceededError
   \<and> pendingWrites (snd (flushWrites (within_quota 1)
        \<lparr>pendingWrites = [(''k'', ''v'')], writeTimeout = True, localStorage = []\<rparr>))
     = [(''k'', ''v'')]"
  by (simp add: flushWrites_def setItem_def within_quota_def)

text \<open>
  Claim C9, amended. A flush in which every durable write succeeds empties the pending
  map; a flush in which a durable write fails throws and leaves the pending map as it
  was.
\<close>

theorem flush_clears_on_success_only:
  "(fst (flushWrites fits sm) = None \<longrightarrow> pendingWrites (snd (flushWrites fits sm)) = [])
   \<and> (fst (flushWrites fits sm) \<noteq> None \<longrightarrow>
        pendingWrites (snd (flushWrites fits sm)) = pendingWrites sm)"
  by (auto simp: flushWrites_def split: prod.splits option.splits)

theorem flush_clears_on_success_only_witness:
  "fst (flushWrites (within_quota 10)
      \<lparr>pendingWrites = [(''k'', ''v'')], writeTimeout = True, localStorage = []\<rparr>) = None
   \<and> pendingWrites (snd (flushWrites (within_quota 10)
        \<lparr>pendingWrites = [(''k'', ''v'')], writeTimeout = True, localStorage = []\<rparr>)) = []
   \<and> fst (flushWrites (within_quota 1)
        \<lparr>pendingWrites = [(''k'', ''v'')], writeTimeout = True, localStorage = []\<rparr>) \<noteq> None
   \<and> pendingWrites (snd (flushWrites (within_quota 1)
        \<lparr>pendingWrites = [(''k'', ''v'')], writeTimeout = True, localStorage = []\<rparr>))
       = [(''k'', ''v'')]"
  using flush_clears_on_success_only
      [of "within_quota 10"
          "\<lparr>pendingWrites = [(''k'', ''v'')], writeTimeout = True, localStorage = []\<rparr>"]
    flush_clears_on_success_only
      [of "within_quota 1"
          "\<lparr>pendingWrites = [(''k'', ''v'')], writeTimeout = True, localStorage = []\<rparr>"]
  by (simp add: flushWrites_def setItem_def within_quota_def)

section \<open>Sessions: properties\<close>

lemma tabs_saveCurrentTabContent: "tabs (snd (saveCurrentTabContent s)) = tabs s"
  by (simp add: saveCurrentTabContent_def Let_def split: option.splits)

lemma tabs_loadSectionContent: "tabs (loadSectionContent section s) = tabs s"
  by (simp add: loadSectionContent_def setContent_def Let_def)

lemma tabs_saveSectionContent: "tabs (saveSectionContent s) = tabs s"
  by (simp add: saveSectionContent_def Let_def)

lemma tabs_switchTab: "tabs (snd (switchTab H index s)) = tabs s"
proof (cases "saveCurrentTabContent s")
  case (Pair e s1)
  with tabs_saveCurrentTabContent [of s] have "tabs s1 = tabs s" by simp
  with Pair show ?thesis
    by (simp add: switchTab_def setNoteId_def saveTabsToStorage_def tabs_loadSectionContent Let_def
        split: option.splits)
qed

lemma switchTab_success:
  assumes "switchTab H index s = (None, s')" and "currentTabIndex s \<noteq> index"
  shows "tabs s' \<noteq> []"
proof -
  from assms have "at_index (tabs (snd (saveCurrentTabContent s))) index \<noteq> None"
    by (auto simp: switchTab_def Let_def split: option.splits prod.splits)
  then have "tabs s \<noteq> []"
    by (auto simp: tabs_saveCurrentTabContent at_index_def split: if_splits)
  moreover from assms(1) have "tabs s' = tabs s"
    using tabs_switchTab [of H index s] by simp
  ultimately show ?thesis by simp
qed

lemma tabs_createNewTab:
  assumes "tabs s \<noteq> []"
  shows "tabs (snd (createNewTab H now s)) \<noteq> []"
proof (cases "if currentTabIndex s \<noteq> - 1 then saveCurrentTabContent s else (None, s)")
  case (Pair e s1)
  have s1: "tabs s1 = tabs s"
  proof (cases "currentTabIndex s \<noteq> - 1")
    case True
    with Pair have "saveCurrentTabContent s = (e, s1)" by simp
    then show ?thesis using tabs_saveCurrentTabContent [of s] by simp
  next
    case False
    with Pair show ?thesis by simp
  qed
  show ?thesis
  proof (cases e)
    case (Some err)
    have "createNewTab H now s = (Some err, s1)"
      unfolding createNewTab_def Pair Some by simp
    with s1 assms show ?thesis by simp
  next
    case None
    define s3 where "s3 = s1\<lparr>tabs := tabs s1 @ [\<lparr>tabId = ''note-'' @ decimal now,
        title = ''Note '' @ decimal (length (tabs s1) + 1)\<rparr>],
      tabHistories := AList.update (''note-'' @ decimal now) HistoryManager_new (tabHistories s1)\<rparr>"
    have "createNewTab H now s = switchTab H (int (length (tabs s3)) - 1) s3"
      unfolding createNewTab_def Pair None by (simp add: Let_def s3_def)
    moreover have "tabs s3 \<noteq> []" by (simp add: s3_def)
    ultimately show ?thesis by (simp add: tabs_switchTab)
  qed
qed

lemma createNewTab_success:
  assumes "createNewTab H now s = (None, s')"
  shows "tabs s' \<noteq> []"
proof (cases "if currentTabIndex s \<noteq> - 1 then saveCurrentTabContent s else (None, s)")
  case (Pair e s1)
  show ?thesis
  proof (cases e)
    case (Some err)
    with Pair assms show ?thesis by (simp add: createNewTab_def)
  next
    case None
    define t where "t = \<lparr>tabId = ''note-'' @ decimal now,
      title = ''Note '' @ decimal (length (tabs s1) + 1)\<rparr>"
    define s3 where "s3 = s1\<lparr>tabs := tabs s1 @ [t],
      tabHistories := AList.update (''note-'' @ decimal now) HistoryManager_new (tabHistories s1)\<rparr>"
    from Pair None assms have "switchTab H (int (length (tabs s3)) - 1) s3 = (None, s')"
      by (simp add: createNewTab_def Let_def s3_def t_def)
    then have "tabs s' = tabs s3"
      using tabs_switchTab [of H "int (length (tabs s3)) - 1" s3] by simp
    then show ?thesis by (simp add: s3_def)
  qed
qed

lemma splice1_length: "2 \<le> length xs \<Longrightarrow> splice1 index xs \<noteq> []"
  by (auto simp: splice1_def Let_def max_def min_def)

lemma tabs_closeTab: "tabs s \<noteq> [] \<Longrightarrow> tabs (snd (closeTab H index s)) \<noteq> []"
proof (cases "length (tabs s) \<le> 1")
  case True
  assume "tabs s \<noteq> []"
  with True show ?thesis by (simp add: closeTab_def)
next
  case False
  then have "\<And>i. splice1 i (tabs s) \<noteq> []" by (simp add: splice1_length)
  with False show ?thesis
    by (simp add: closeTab_def Let_def tabs_switchTab saveTabsToStorage_def split: option.splits)
qed


lemma frame_refl: "enrichment_frame s s"
  by (simp add: enrichment_frame_def)

lemma frame_trans: "enrichment_frame s s1 \<Longrightarrow> enrichment_frame s1 s2 \<Longrightarrow> enrichment_frame s s2"
  by (simp add: enrichment_frame_def)

lemma frame_setInnerText: "enrichment_frame s (snd (setInnerText text s))"
  by (simp add: enrichment_frame_def setInnerText_def split: option.splits)

lemma sectionKey_hyphen: "CHR ''-'' \<in> set (sectionKey noteId sec s)"
  by (simp add: sectionKey_def split: option.splits)

lemma frame_saveSectionContent: "enrichment_frame s (saveSectionContent s)"
proof -
  have other: "map_of (AList.update (sectionKey noteId sec s) v pending) k = map_of pending k"
    if "CHR ''-'' \<notin> set k" for noteId sec v pending k
    using that sectionKey_hyphen [of noteId sec s] by (auto simp: update_conv')
  show ?thesis
    by (simp add: enrichment_frame_def saveSectionContent_def saveToLocalStorage_def Let_def other)
qed

lemma frame_callSharpApi: "enrichment_frame s (snd (callSharpApi H method path apiKey body s))"
  by (simp add: enrichment_frame_def callSharpApi_def Let_def)

lemma frame_setContent: "enrichment_frame s (setContent element newText s)"
  by (simp add: enrichment_frame_def setContent_def)

lemma frame_apiCache: "enrichment_frame s (s\<lparr>apiCache := c\<rparr>)"
  by (simp add: enrichment_frame_def)

lemma frame_jobCompleted: "enrichment_frame s (snd (jobCompleted cacheKey response s))"
proof -
  have stored: "enrichment_frame s (saveSectionContent
      ((setContent element final s)\<lparr>apiCache := c\<rparr>))" for element final c
    using frame_setContent [of s element final]
      frame_apiCache [of "setContent element final s" c]
      frame_saveSectionContent [of "(setContent element final s)\<lparr>apiCache := c\<rparr>"]
    by (blast intro: frame_trans)
  show ?thesis
  proof (cases "result response")
    case (JUnparsable msg)
    then show ?thesis by (simp add: jobCompleted_def frame_setInnerText)
  next
    case (JObject fs)
    then show ?thesis
      by (simp add: jobCompleted_def Let_def stored frame_refl split: option.splits)
  next
    case (JArray ks)
    then show ?thesis
      by (simp add: jobCompleted_def Let_def stored frame_refl split: option.splits)
  qed
qed

lemma frame_pollForStatus:
  "enrichment_frame s (snd (pollForStatus H statusUrl apiKey cacheKey retries s))"
proof (induction H statusUrl apiKey cacheKey retries s rule: pollForStatus.induct)
  case (1 H statusUrl apiKey cacheKey retries s)
  show ?case
  proof (cases "maxRetries \<le> retries")
    case True
    then have "pollForStatus H statusUrl apiKey cacheKey retries s
        = setInnerText ''Job timed out. Please try again.'' s"
      by (simp add: pollForStatus.simps)
    then show ?thesis by (simp add: frame_setInnerText)
  next
    case False
    obtain x s1 where call: "callSharpApi H ''GET'' statusUrl apiKey None s = (x, s1)"
      by (cases "callSharpApi H ''GET'' statusUrl apiKey None s")
    then have f1: "enrichment_frame s s1"
      using frame_callSharpApi [of s H "''GET''" statusUrl apiKey None] by simp
    have unfold: "pollForStatus H statusUrl apiKey cacheKey retries s =
        (case x of
           Inl msg \<Rightarrow> setInnerText (''Polling failed: '' @ msg) s1
         | Inr response \<Rightarrow>
             if status response = ''completed'' \<or> status response = ''success'' then
               jobCompleted cacheKey response s1
             else if status response = ''failed'' then
               setInnerText (''Job failed: '' @ or_else (message response) ''Unknown error'') s1
             else
               pollForStatus H statusUrl apiKey cacheKey (retries + 1)
                 (s1\<lparr>pollingTimeout := True\<rparr>))"
      using False by (simp add: pollForStatus.simps [of H statusUrl apiKey cacheKey retries s] call)
    have "enrichment_frame s1 (snd (pollForStatus H statusUrl apiKey cacheKey retries s))"
    proof (cases x)
      case (Inl msg)
      then show ?thesis by (simp add: unfold frame_setInnerText)
    next
      case (Inr response)
      consider (completed) "status response = ''completed'' \<or> status response = ''success''"
        | (failed) "\<not> (status response = ''completed'' \<or> status response = ''success'')"
            "status response = ''failed''"
        | (again) "\<not> (status response = ''completed'' \<or> status response = ''success'')"
            "status response \<noteq> ''failed''"
        by blast
      then show ?thesis
      proof cases
        case completed
        with Inr show ?thesis by (simp add: unfold frame_jobCompleted)
      next
        case failed
        with Inr show ?thesis by (simp add: unfold frame_setInnerText)
      next
        case again
        have "enrichment_frame (s1\<lparr>pollingTimeout := True\<rparr>)
            (snd (pollForStatus H statusUrl apiKey cacheKey (retries + 1)
                (s1\<lparr>pollingTimeout := True\<rparr>)))"
          using "1.IH" [OF False call [symmetric] Inr again] .
        moreover have "enrichment_frame s1 (s1\<lparr>pollingTimeout := True\<rparr>)"
          by (simp add: enrichment_frame_def)
        ultimately have "enrichment_frame s1
            (snd (pollForStatus H statusUrl apiKey cacheKey (retries + 1)
                (s1\<lparr>pollingTimeout := True\<rparr>)))"
          by (rule frame_trans [rotated])
        with Inr again show ?thesis by (simp add: unfold)
      qed
    qed
    with f1 show ?thesis by (rule frame_trans)
  qed
qed

lemma frame_submitJob:
  "enrichment_frame s (snd (submitJob H section apiKey noteContent cacheKey s))"
proof (cases "apiPath section")
  case None
  then show ?thesis by (simp add: submitJob_def frame_setInnerText)
next
  case (Some path)
  define body where "body = (if section = ''translation''
                 then [(''content'', noteContent), (''language'', the (translationManager s))]
                 else [(''content'', noteContent)])"
  obtain x s1 where call: "callSharpApi H ''POST'' path apiKey (Some body) s = (x, s1)"
    by (cases "callSharpApi H ''POST'' path apiKey (Some body) s")
  then have f1: "enrichment_frame s s1"
    using frame_callSharpApi [of s H "''POST''" path apiKey "Some body"] by simp
  obtain e s2 where acc: "setInnerText ''Job accepted. Waiting for result...'' s1 = (e, s2)"
    by (cases "setInnerText ''Job accepted. Waiting for result...'' s1")
  then have f2: "enrichment_frame s1 s2"
    using frame_setInnerText [of s1 "''Job accepted. Waiting for result...''"] by simp
  have unfold: "submitJob H section apiKey noteContent cacheKey s =
      (case x of
         Inl msg \<Rightarrow> setInnerText (''Error: '' @ msg) s1
       | Inr response \<Rightarrow>
           if truthy (status_url response) then
             (case e of
                Some err \<Rightarrow> (Some err, s2)
              | None \<Rightarrow> pollForStatus H (the (status_url response)) apiKey cacheKey 0 s2)
           else (None, s1))"
    using Some call acc by (auto simp: submitJob_def body_def Let_def split: sum.splits option.splits)
  have "enrichment_frame s1 (snd (submitJob H section apiKey noteContent cacheKey s))"
  proof (cases x)
    case (Inl msg)
    then show ?thesis by (simp add: unfold frame_setInnerText)
  next
    case (Inr response)
    show ?thesis
    proof (cases "truthy (status_url response)")
      case False
      with Inr show ?thesis by (simp add: unfold frame_refl)
    next
      case True
      have "enrichment_frame s2 (snd (case e of
                Some err \<Rightarrow> (Some err, s2)
              | None \<Rightarrow> pollForStatus H (the (status_url response)) apiKey cacheKey 0 s2))"
        by (cases e) (simp_all add: frame_refl frame_pollForStatus)
      with f2 have "enrichment_frame s1 (snd (case e of
                Some err \<Rightarrow> (Some err, s2)
              | None \<Rightarrow> pollForStatus H (the (status_url response)) apiKey cacheKey 0 s2))"
        by (rule frame_trans)
      with Inr True show ?thesis by (simp add: unfold)
    qed
  qed
  with f1 show ?thesis by (rule frame_trans)
qed

lemma frame_handleAiWrite: "enrichment_frame s (snd (handleAiWrite H s))"
proof (cases "activeSection s")
  case None
  then show ?thesis by (simp add: handleAiWrite_def frame_refl)
next
  case (Some sec)
  define apiKey where "apiKey = getFromLocalStorage ''apiKey'' [] (storage s)"
  define noteContent where "noteContent = trim H (noteText s)"
  show ?thesis
  proof (cases "apiKey = [] \<or> noteContent = []")
    case True
    with Some show ?thesis
      by (auto simp: handleAiWrite_def Let_def apiKey_def noteContent_def enrichment_frame_def)
  next
    case False
    show ?thesis
    proof (cases "generateCacheKey H noteContent s")
      case (Inl e)
      with Some False show ?thesis
        by (simp add: handleAiWrite_def Let_def apiKey_def noteContent_def frame_refl)
    next
      case (Inr cacheKey)
      show ?thesis
      proof (cases "truthy (map_of (apiCache s) cacheKey)")
        case True
        have "enrichment_frame s (saveSectionContent (setContent element r s))" for element r
          using frame_setContent [of s element r]
            frame_saveSectionContent [of "setContent element r s"]
          by (blast intro: frame_trans)
        with Some False Inr True show ?thesis
          by (simp add: handleAiWrite_def Let_def apiKey_def noteContent_def frame_refl
              split: option.splits)
      next
        case miss: False
        obtain e s1 where load: "setInnerText ''Loading...'' s = (e, s1)"
          by (cases "setInnerText ''Loading...'' s")
        then have f1: "enrichment_frame s s1"
          using frame_setInnerText [of s "''Loading...''"] by simp
        have unfold: "handleAiWrite H s =
            (case e of Some err \<Rightarrow> (Some err, s1)
             | None \<Rightarrow> submitJob H sec apiKey noteContent cacheKey s1)"
          using Some False Inr miss load
          by (auto simp: handleAiWrite_def Let_def apiKey_def noteContent_def split: option.splits)
        have "enrichment_frame s1 (snd (handleAiWrite H s))"
          by (cases e) (simp_all add: unfold frame_refl frame_submitJob)
        with f1 show ?thesis by (rule frame_trans)
      qed
    qed
  qed
qed

lemma tabs_handle: "tabs s \<noteq> [] \<Longrightarrow> tabs (snd (handle H s ev)) \<noteq> []"
proof (cases ev)
  case (CreateNewTab now)
  assume "tabs s \<noteq> []"
  with CreateNewTab show ?thesis by (simp add: tabs_createNewTab)
next
  case (SwitchTab index)
  assume "tabs s \<noteq> []"
  with SwitchTab show ?thesis by (simp add: tabs_switchTab)
next
  case (CloseTab index)
  assume "tabs s \<noteq> []"
  with CloseTab show ?thesis by (simp add: tabs_closeTab)
next
  case AiWrite
  assume "tabs s \<noteq> []"
  moreover have "tabs (snd (handleAiWrite H s)) = tabs s"
    using frame_handleAiWrite [of s H] by (simp add: enrichment_frame_def)
  ultimately show ?thesis using AiWrite by simp
next
  case SaveNote
  assume "tabs s \<noteq> []"
  with SaveNote show ?thesis by (simp add: tabs_saveCurrentTabContent)
next
  case UndoKey
  assume "tabs s \<noteq> []"
  with UndoKey show ?thesis
    by (simp add: undo_tab_def Let_def split: option.splits prod.splits)
next
  case RedoKey
  assume "tabs s \<noteq> []"
  with RedoKey show ?thesis
    by (simp add: redo_tab_def Let_def split: option.splits prod.splits)
qed (simp_all add: switchSection_def tabs_loadSectionContent tabs_saveSectionContent setContent_def
    Let_def split: option.splits prod.splits)

lemma tabs_run_events: "tabs s \<noteq> [] \<Longrightarrow> tabs (run_events H s events) \<noteq> []"
  unfolding run_events_def
  by (induction events arbitrary: s) (simp_all add: tabs_handle)

lemma TabManager_new_success:
  assumes "TabManager_new H now s = (None, s')" and "currentTabIndex s = - 1"
  shows "tabs s' \<noteq> []"
proof (cases "getFromLocalStorage ''tabs'' [] (storage s) = []")
  case True
  with assms show ?thesis by (simp add: TabManager_new_def createNewTab_success)
next
  case False
  then obtain parsed where p: "JSON_parse H (getFromLocalStorage ''tabs'' [] (storage s)) = Some parsed"
    using assms(1) by (auto simp: TabManager_new_def Let_def split: option.splits)
  define s2 where "s2 = s\<lparr>tabs := parsed,
      tabHistories := foldl (\<lambda>hs t. AList.update (tabId t)
           (HistoryManager_new\<lparr>current := getFromLocalStorage (tabId t) [] (storage s)\<rparr>) hs)
         (tabHistories s) parsed\<rparr>"
  have idx: "currentTabIndex s2 = - 1" using assms(2) by (simp add: s2_def)
  from False p assms(1) obtain index where "0 \<le> index" and "switchTab H index s2 = (None, s')"
    by (auto simp: TabManager_new_def Let_def s2_def split: option.splits if_splits)
  with idx show ?thesis using switchTab_success [of H index s2 s'] by simp
qed

text \<open>
  Claim C5. In every state of a session the tab list is non-empty; and \<open>closeTab\<close> called
  while exactly one tab remains is rejected: it returns without an exception, shows the
  alert, and leaves the tab list, the active index and the store as they were, so the
  number of tabs stays 1.
\<close>

theorem last_tab_cannot_be_closed:
  assumes "session H now sm elements events = Some s"
  shows "tabs s \<noteq> []
     \<and> (length (tabs s) = 1 \<longrightarrow>
          fst (closeTab H index s) = None
          \<and> tabs (snd (closeTab H index s)) = tabs s
          \<and> currentTabIndex (snd (closeTab H index s)) = currentTabIndex s
          \<and> storage (snd (closeTab H index s)) = storage s
          \<and> alerts (snd (closeTab H index s)) = alerts s @ [''Cannot delete the last tab.''])"
proof -
  from assms obtain s0 where new: "TabManager_new H now (page_loaded sm elements) = (None, s0)"
    and run: "s = run_events H s0 events"
    by (cases "TabManager_new H now (page_loaded sm elements)")
      (auto simp: session_def split: if_splits)
  have "currentTabIndex (page_loaded sm elements) = - 1" by (simp add: page_loaded_def)
  with new have "tabs s0 \<noteq> []" by (rule TabManager_new_success)
  with run have "tabs s \<noteq> []" by (simp add: tabs_run_events)
  then show ?thesis by (simp add: closeTab_def)
qed

lemma two_tabs_closed_to_one_tabs:
  "map_option (\<lambda>s. map tabId (tabs s)) two_tabs_closed_to_one = Some [''note-1'']"
  by code_simp

theorem last_tab_cannot_be_closed_witness:
  "two_tabs_closed_to_one \<noteq> None
   \<and> map tabId (tabs (the two_tabs_closed_to_one)) = [''note-1'']
   \<and> fst (closeTab (example_host ''pending'' (JArray [])) 0 (the two_tabs_closed_to_one)) = None
   \<and> tabs (snd (closeTab (example_host ''pending'' (JArray [])) 0 (the two_tabs_closed_to_one)))
       = tabs (the two_tabs_closed_to_one)"
proof -
  from two_tabs_closed_to_one_tabs obtain s where s: "two_tabs_closed_to_one = Some s"
    and ids: "map tabId (tabs s) = [''note-1'']"
    by auto
  from ids have len: "length (tabs s) = 1" by (metis length_map length_Cons list.size(3) One_nat_def)
  from s have "session (example_host ''pending'' (JArray [])) 1 empty_store panels
      [CreateNewTab 2, CloseTab 1] = Some s"
    by (simp add: two_tabs_closed_to_one_def)
  from last_tab_cannot_be_closed [OF this, of 0] len ids show ?thesis
    unfolding s by simp
qed

lemma saveCurrentTabContent_other:
  assumes "saveCurrentTabContent s = (None, s1)"
    and "currentTabIndex s = - 1
         \<or> (\<exists>t0. at_index (tabs s) (currentTabIndex s) = Some t0 \<and> tabId t0 \<noteq> k)"
  shows "map_of (tabHistories s1) k = map_of (tabHistories s) k
       \<and> getFromLocalStorage k d (storage s1) = getFromLocalStorage k d (storage s)"
proof (cases "currentTabIndex s = - 1")
  case True
  with assms(1) show ?thesis by (simp add: saveCurrentTabContent_def)
next
  case False
  with assms(2) obtain t0 where t0: "at_index (tabs s) (currentTabIndex s) = Some t0"
    and ne: "tabId t0 \<noteq> k" by auto
  from assms(1) False t0 obtain h0 where
    s1: "s1 = s\<lparr>storage := saveToLocalStorage (tabId t0) (noteText s) (storage s),
                tabHistories := AList.update (tabId t0) (pushState (noteText s) h0) (tabHistories s)\<rparr>"
    by (auto simp: saveCurrentTabContent_def Let_def split: option.splits)
  have "map_of (pendingWrites (storage s1)) k = map_of (pendingWrites (storage s)) k"
    using ne by (simp add: s1 saveToLocalStorage_def update_conv')
  moreover have "localStorage (storage s1) = localStorage (storage s)"
    by (simp add: s1 saveToLocalStorage_def)
  ultimately have "getFromLocalStorage k d (storage s1) = getFromLocalStorage k d (storage s)"
    by (simp add: getFromLocalStorage_cases split: option.splits)
  moreover have "map_of (tabHistories s1) k = map_of (tabHistories s) k"
    using ne by (simp add: s1 update_conv')
  ultimately show ?thesis by simp
qed

text \<open>
  Claim C10. \<open>switchTab index\<close> to an index other than the active one, once the outgoing
  text is saved, loads for the incoming tab the \<open>current\<close> of its history manager when
  that is a non-empty string, and otherwise the value read from the store under the id
  of the tab with the empty string as default; the loaded text also becomes the
  \<open>current\<close> of that history manager. So an empty \<open>current\<close> gives way to the stored
  content. When the outgoing tab has another id than the incoming one (or no tab was
  active), the history manager and the store read are those from before the call.
\<close>

theorem switchTab_loads_history_or_store:
  assumes "currentTabIndex s \<noteq> index"
    and "saveCurrentTabContent s = (None, s1)"
    and "at_index (tabs s) index = Some t"
    and "map_of (tabHistories s1) (tabId t) = Some h"
  shows "fst (switchTab H index s) = None
     \<and> currentTabIndex (snd (switchTab H index s)) = index
     \<and> noteText (snd (switchTab H index s))
         = (if current h \<noteq> [] then current h
            else getFromLocalStorage (tabId t) [] (storage s1))
     \<and> map_of (tabHistories (snd (switchTab H index s))) (tabId t)
         = Some (h\<lparr>current := noteText (snd (switchTab H index s))\<rparr>)
     \<and> (currentTabIndex s = - 1
          \<or> (\<exists>t0. at_index (tabs s) (currentTabIndex s) = Some t0 \<and> tabId t0 \<noteq> tabId t)
        \<longrightarrow> map_of (tabHistories s) (tabId t) = Some h
            \<and> getFromLocalStorage (tabId t) [] (storage s1)
                = getFromLocalStorage (tabId t) [] (storage s))"
proof -
  have t1: "tabs s1 = tabs s"
    using tabs_saveCurrentTabContent [of s] assms(2) by simp
  define newContent where "newContent =
    (if current h \<noteq> [] then current h else getFromLocalStorage (tabId t) [] (storage s1))"
  define s4 where "s4 = s1\<lparr>currentTabIndex := index, noteText := newContent,
    tabHistories := AList.update (tabId t) (h\<lparr>current := newContent\<rparr>) (tabHistories s1)\<rparr>"
  have sw: "switchTab H index s = (None, saveTabsToStorage H (setNoteId (tabId t) s4))"
    using assms t1 by (simp add: switchTab_def Let_def s4_def newContent_def)
  have keep: "noteText (saveTabsToStorage H (setNoteId (tabId t) s4)) = noteText s4
      \<and> currentTabIndex (saveTabsToStorage H (setNoteId (tabId t) s4)) = currentTabIndex s4
      \<and> tabHistories (saveTabsToStorage H (setNoteId (tabId t) s4)) = tabHistories s4"
    by (simp add: saveTabsToStorage_def setNoteId_def loadSectionContent_def setContent_def Let_def)
  have "map_of (tabHistories s4) (tabId t) = Some (h\<lparr>current := newContent\<rparr>)"
    by (simp add: s4_def update_conv')
  with sw keep have main: "fst (switchTab H index s) = None
     \<and> currentTabIndex (snd (switchTab H index s)) = index
     \<and> noteText (snd (switchTab H index s)) = newContent
     \<and> map_of (tabHistories (snd (switchTab H index s))) (tabId t)
         = Some (h\<lparr>current := noteText (snd (switchTab H index s))\<rparr>)"
    by (simp add: s4_def)
  have "map_of (tabHistories s) (tabId t) = Some h
      \<and> getFromLocalStorage (tabId t) [] (storage s1) = getFromLocalStorage (tabId t) [] (storage s)"
    if "currentTabIndex s = - 1
          \<or> (\<exists>t0. at_index (tabs s) (currentTabIndex s) = Some t0 \<and> tabId t0 \<noteq> tabId t)"
    using saveCurrentTabContent_other [OF assms(2) that, of "[]"] assms(4) by simp
  with main show ?thesis unfolding newContent_def by blast
qed

lemma typed_then_new_tab_state:
  "map_option (\<lambda>s. (currentTabIndex s, noteText s, fst (saveCurrentTabContent s),
        at_index (tabs s) 0,
        map_of (tabHistories (snd (saveCurrentTabContent s))) ''note-1'')) typed_then_new_tab
   = Some (1, [], None, Some \<lparr>tabId = ''note-1'', title = ''Note 1''\<rparr>,
        Some (HistoryManager_new\<lparr>current := ''hello''\<rparr>))"
  by code_simp

lemma redone_then_typed_state:
  "map_option (\<lambda>s. (currentTabIndex s, noteText s, fst (saveCurrentTabContent s),
        at_index (tabs s) 0,
        map_of (tabHistories (snd (saveCurrentTabContent s))) ''note-1'',
        getFromLocalStorage ''note-1'' [] (storage (snd (saveCurrentTabContent s)))))
     redone_then_typed
   = Some (1, [], None, Some \<lparr>tabId = ''note-1'', title = ''Note 1''\<rparr>,
        Some (HistoryManager_new\<lparr>past := [''hello world'']\<rparr>), ''new text'')"
  by code_simp

theorem switchTab_loads_history_or_store_witness:
  "typed_then_new_tab \<noteq> None
   \<and> currentTabIndex (the typed_then_new_tab) = 1
   \<and> noteText (snd (switchTab (example_host ''pending'' (JArray [])) 0 (the typed_then_new_tab)))
       = ''hello''
   \<and> redone_then_typed \<noteq> None
   \<and> currentTabIndex (the redone_then_typed) = 1
   \<and> noteText (snd (switchTab (example_host ''pending'' (JArray [])) 0 (the redone_then_typed)))
       = ''new text''"
proof -
  have first: "typed_then_new_tab \<noteq> None
     \<and> currentTabIndex (the typed_then_new_tab) = 1
     \<and> noteText (snd (switchTab (example_host ''pending'' (JArray [])) 0 (the typed_then_new_tab)))
         = ''hello''"
  proof -
    from typed_then_new_tab_state obtain s where s: "typed_then_new_tab = Some s"
      and idx: "currentTabIndex s = 1"
      and sv: "fst (saveCurrentTabContent s) = None"
      and t: "at_index (tabs s) 0 = Some \<lparr>tabId = ''note-1'', title = ''Note 1''\<rparr>"
      and h: "map_of (tabHistories (snd (saveCurrentTabContent s))) ''note-1''
          = Some (HistoryManager_new\<lparr>current := ''hello''\<rparr>)"
      by auto
    from idx have ne: "currentTabIndex s \<noteq> 0" by simp
    from sv have sv': "saveCurrentTabContent s = (None, snd (saveCurrentTabContent s))"
      by (simp add: prod_eq_iff)
    from h have h': "map_of (tabHistories (snd (saveCurrentTabContent s)))
        (tabId \<lparr>tabId = ''note-1'', title = ''Note 1''\<rparr>)
          = Some (HistoryManager_new\<lparr>current := ''hello''\<rparr>)" by simp
    from switchTab_loads_history_or_store [OF ne sv' t h', of "example_host ''pending'' (JArray [])"]
      idx
    show ?thesis unfolding s by (simp add: HistoryManager_new_def)
  qed
  have second: "redone_then_typed \<noteq> None
     \<and> currentTabIndex (the redone_then_typed) = 1
     \<and> noteText (snd (switchTab (example_host ''pending'' (JArray [])) 0 (the redone_then_typed)))
         = ''new text''"
  proof -
    from redone_then_typed_state obtain s where s: "redone_then_typed = Some s"
      and idx: "currentTabIndex s = 1"
      and sv: "fst (saveCurrentTabContent s) = None"
      and t: "at_index (tabs s) 0 = Some \<lparr>tabId = ''note-1'', title = ''Note 1''\<rparr>"
      and h: "map_of (tabHistories (snd (saveCurrentTabContent s))) ''note-1''
          = Some (HistoryManager_new\<lparr>past := [''hello world'']\<rparr>)"
      and stored: "getFromLocalStorage ''note-1'' [] (storage (snd (saveCurrentTabContent s)))
          = ''new text''"
      by auto
    from idx have ne: "currentTabIndex s \<noteq> 0" by simp
    from sv have sv': "saveCurrentTabContent s = (None, snd (saveCurrentTabContent s))"
      by (simp add: prod_eq_iff)
    from h have h': "map_of (tabHistories (snd (saveCurrentTabContent s)))
        (tabId \<lparr>tabId = ''note-1'', title = ''Note 1''\<rparr>)
          = Some (HistoryManager_new\<lparr>past := [''hello world'']\<rparr>)" by simp
    from switchTab_loads_history_or_store [OF ne sv' t h', of "example_host ''pending'' (JArray [])"]
      idx stored
    show ?thesis unfolding s by (simp add: HistoryManager_new_def)
  qed
  from first second show ?thesis by simp
qed

lemma poll_pending:
  "always_pending H statusUrl apiKey \<Longrightarrow> retries \<le> maxRetries \<Longrightarrow>
    pollForStatus H statusUrl apiKey cacheKey retries s =
      setInnerText ''Job timed out. Please try again.''
        (s\<lparr>requests := requests s
               @ replicate (maxRetries - retries) (Request ''GET'' (apiUrl statusUrl) apiKey None),
           pollingTimeout := (retries < maxRetries \<or> pollingTimeout s)\<rparr>)"
proof (induction H statusUrl apiKey cacheKey retries s rule: pollForStatus.induct)
  case (1 H statusUrl apiKey cacheKey retries s)
  show ?case
  proof (cases "maxRetries \<le> retries")
    case True
    then have "pollForStatus H statusUrl apiKey cacheKey retries s
        = setInnerText ''Job timed out. Please try again.'' s"
      by (simp add: pollForStatus.simps [of H statusUrl apiKey cacheKey retries s])
    moreover from True "1.prems"(2) have "retries = maxRetries" by simp
    ultimately show ?thesis by simp
  next
    case False
    define req where "req = Request ''GET'' (apiUrl statusUrl) apiKey None"
    define s1 where "s1 = s\<lparr>requests := requests s @ [req]\<rparr>"
    from "1.prems"(1) have "case sharpApi H (requests s) req of
               Inl msg \<Rightarrow> False
             | Inr response \<Rightarrow>
                 status response \<noteq> ''completed'' \<and> status response \<noteq> ''success''
                   \<and> status response \<noteq> ''failed''"
      unfolding always_pending_def req_def by blast
    then obtain response where
      ans: "sharpApi H (requests s) req = Inr response"
      and st: "\<not> (status response = ''completed'' \<or> status response = ''success'')"
        "status response \<noteq> ''failed''"
      by (cases "sharpApi H (requests s) req") simp_all
    have call: "callSharpApi H ''GET'' statusUrl apiKey None s = (Inr response, s1)"
      by (simp add: callSharpApi_def Let_def ans [unfolded req_def] s1_def req_def)
    have step: "pollForStatus H statusUrl apiKey cacheKey retries s
        = pollForStatus H statusUrl apiKey cacheKey (retries + 1) (s1\<lparr>pollingTimeout := True\<rparr>)"
      using False st by (simp add: pollForStatus.simps [of H statusUrl apiKey cacheKey retries s] call)
    from False have le: "retries + 1 \<le> maxRetries" by simp
    have more: "replicate (maxRetries - retries) req = req # replicate (maxRetries - (retries + 1)) req"
      using False by (cases "maxRetries - retries") simp_all
    have "pollForStatus H statusUrl apiKey cacheKey (retries + 1) (s1\<lparr>pollingTimeout := True\<rparr>)
        = setInnerText ''Job timed out. Please try again.''
            ((s1\<lparr>pollingTimeout := True\<rparr>)
              \<lparr>requests := requests (s1\<lparr>pollingTimeout := True\<rparr>)
                   @ replicate (maxRetries - (retries + 1)) req,
               pollingTimeout := (retries + 1 < maxRetries
                   \<or> pollingTimeout (s1\<lparr>pollingTimeout := True\<rparr>))\<rparr>)"
      using "1.IH" [OF False call [symmetric] refl st "1.prems"(1) le]
      unfolding req_def .
    with step more False show ?thesis
      unfolding req_def [symmetric] by (simp add: s1_def)
  qed
qed

text \<open>
  Claim C6. For a job whose status endpoint answers every read with a non-terminal
  status, polling from retry count 0 sends exactly 10 status reads and no more, and then
  (the retry count being 10) writes the timeout message into the current panel; a call
  with retry count 10 sends no read at all.
\<close>

theorem polling_stops_after_ten_reads:
  assumes "always_pending H statusUrl apiKey"
  shows "requests (snd (pollForStatus H statusUrl apiKey cacheKey 0 s))
           = requests s @ replicate 10 (Request ''GET'' (apiUrl statusUrl) apiKey None)
       \<and> (\<forall>element. currentSectionElement s = Some element \<longrightarrow>
             fst (pollForStatus H statusUrl apiKey cacheKey 0 s) = None
             \<and> innerText element (snd (pollForStatus H statusUrl apiKey cacheKey 0 s))
                 = ''Job timed out. Please try again.'')
       \<and> requests (snd (pollForStatus H statusUrl apiKey cacheKey 10 s)) = requests s"
proof -
  have "pollForStatus H statusUrl apiKey cacheKey 10 s
      = setInnerText ''Job timed out. Please try again.'' s"
    by (simp add: pollForStatus.simps [of H statusUrl apiKey cacheKey 10 s] maxRetries_def)
  then have "requests (snd (pollForStatus H statusUrl apiKey cacheKey 10 s)) = requests s"
    by (simp add: setInnerText_def split: option.splits)
  then show ?thesis
    by (simp add: poll_pending [OF assms, of 0] maxRetries_def setInnerText_def innerText_def
        update_conv' split: option.splits)
qed

theorem polling_stops_after_ten_reads_witness:
  "always_pending (example_host ''pending'' (JArray [])) ''https://sharpapi.com/api/v1/job/1'' ''secret''
   \<and> length (requests (snd (pollForStatus (example_host ''pending'' (JArray []))
         ''https://sharpapi.com/api/v1/job/1'' ''secret'' ''summary-note-1-abc-'' 0
         ((page_loaded empty_store panels)\<lparr>currentSectionElement := Some ''summary''\<rparr>)))) = 10
   \<and> innerText ''summary'' (snd (pollForStatus (example_host ''pending'' (JArray []))
         ''https://sharpapi.com/api/v1/job/1'' ''secret'' ''summary-note-1-abc-'' 0
         ((page_loaded empty_store panels)\<lparr>currentSectionElement := Some ''summary''\<rparr>)))
       = ''Job timed out. Please try again.''"
proof -
  have p: "always_pending (example_host ''pending'' (JArray []))
      ''https://sharpapi.com/api/v1/job/1'' ''secret''"
    by (simp add: always_pending_def example_host_def job_service_def)
  from polling_stops_after_ten_reads [OF p, of "''summary-note-1-abc-''"
      "(page_loaded empty_store panels)\<lparr>currentSectionElement := Some ''summary''\<rparr>"] p
  show ?thesis by (simp add: page_loaded_def)
qed

section \<open>Enrichment: cache and cascading delete\<close>

lemma apiCache_saveSectionContent: "apiCache (saveSectionContent s) = apiCache s"
  by (simp add: saveSectionContent_def Let_def)

text \<open>A run that changes the cache has passed every gate of \<open>handleAiWrite\<close>.\<close>

lemma handleAiWrite_gates:
  assumes "handleAiWrite H s = (e1, s1)" and "apiCache s1 \<noteq> apiCache s"
  shows "\<exists>sec element. activeSection s = Some sec \<and> apiPath sec \<noteq> None
      \<and> getFromLocalStorage ''apiKey'' [] (storage s) \<noteq> []
      \<and> trim H (noteText s) \<noteq> []
      \<and> currentSectionElement s = Some element"
proof (cases "activeSection s")
  case None
  with assms show ?thesis by (simp add: handleAiWrite_def)
next
  case (Some sec)
  define apiKey where "apiKey = getFromLocalStorage ''apiKey'' [] (storage s)"
  define noteContent where "noteContent = trim H (noteText s)"
  have k: "apiKey \<noteq> []"
  proof
    assume "apiKey = []"
    with Some assms(1) have "s1 = s\<lparr>modalShown := True\<rparr>"
      by (simp add: handleAiWrite_def Let_def apiKey_def)
    with assms(2) show False by simp
  qed
  have n: "noteContent \<noteq> []"
  proof
    assume "noteContent = []"
    with Some k assms(1) have "apiCache s1 = apiCache s"
      by (auto simp: handleAiWrite_def Let_def apiKey_def noteContent_def)
    with assms(2) show False by simp
  qed
  show ?thesis
  proof (cases "generateCacheKey H noteContent s")
    case (Inl e)
    with Some k n assms(1) have "s1 = s"
      by (simp add: handleAiWrite_def Let_def apiKey_def noteContent_def)
    with assms(2) show ?thesis by simp
  next
    case (Inr cacheKey)
    show ?thesis
    proof (cases "truthy (map_of (apiCache s) cacheKey)")
      case True
      with Some k n Inr assms(1) have "apiCache s1 = apiCache s"
        by (auto simp: handleAiWrite_def Let_def apiKey_def noteContent_def
            apiCache_saveSectionContent setContent_def split: option.splits)
      with assms(2) show ?thesis by simp
    next
      case False
      show ?thesis
      proof (cases "currentSectionElement s")
        case None
        with Some k n Inr False assms(1) have "s1 = s"
          by (simp add: handleAiWrite_def Let_def apiKey_def noteContent_def setInnerText_def)
        with assms(2) show ?thesis by simp
      next
        case el: (Some element)
        have "apiPath sec \<noteq> None"
        proof
          assume "apiPath sec = None"
          with Some k n Inr False el assms(1) have "apiCache s1 = apiCache s"
            by (auto simp: handleAiWrite_def Let_def apiKey_def noteContent_def setInnerText_def
                submitJob_def)
          with assms(2) show False by simp
        qed
        with Some k n el show ?thesis by (simp add: apiKey_def noteContent_def)
      qed
    qed
  qed
qed

lemma generateCacheKey_frame:
  assumes "enrichment_frame s s1"
  shows "generateCacheKey H content s1 = generateCacheKey H content s"
  using assms by (simp add: generateCacheKey_def enrichment_frame_def Let_def)

lemma apiKey_frame:
  assumes "enrichment_frame s s1"
  shows "getFromLocalStorage ''apiKey'' [] (storage s1) = getFromLocalStorage ''apiKey'' [] (storage s)"
proof -
  have "CHR ''-'' \<notin> set ''apiKey''" by simp
  with assms have "map_of (pendingWrites (storage s1)) ''apiKey'' = map_of (pendingWrites (storage s)) ''apiKey''"
    and "localStorage (storage s1) = localStorage (storage s)"
    unfolding enrichment_frame_def by blast+
  then show ?thesis by (simp add: getFromLocalStorage_cases split: option.splits)
qed

text \<open>A run on a state whose cache has a non-empty entry for the key.\<close>

lemma handleAiWrite_hit:
  assumes sec: "activeSection s = Some sec"
    and key: "getFromLocalStorage ''apiKey'' [] (storage s) \<noteq> []"
    and content: "trim H (noteText s) \<noteq> []"
    and ck: "generateCacheKey H (trim H (noteText s)) s = Inr cacheKey"
    and hit: "map_of (apiCache s) cacheKey = Some r" "r \<noteq> []"
    and el: "currentSectionElement s = Some element"
  shows "handleAiWrite H s = (None, saveSectionContent (setContent element r s))"
  using assms by (simp add: handleAiWrite_def Let_def truthy_def)

lemma saveSectionContent_persists:
  assumes "currentNoteId s = Some noteId" "noteId \<noteq> []"
    and "activeSection s = Some sec" "sec \<noteq> []"
    and "currentSectionElement s = Some element"
  shows "getFromLocalStorage (sectionKey noteId sec s) d (storage (saveSectionContent s))
      = innerText element s"
proof -
  have "sectionKey noteId sec (s\<lparr>storage := x\<rparr>) = sectionKey noteId sec s" for x
    by (simp add: sectionKey_def)
  with assms show ?thesis
    by (simp add: saveSectionContent_def Let_def truthy_def getFromLocalStorage_cases
        saveToLocalStorage_def update_conv')
qed

text \<open>
  Claim C7, as stated, fails for the keywords section when the job completes with an
  empty list of keywords: the run caches the empty string, which the cache test
  \<^verbatim>\<open>if (this.apiCache[cacheKey])\<close> takes for a miss, and the second run with the same
  section, note, language and text submits and polls again (two more requests).
\<close>

theorem empty_result_is_fetched_again_counterexample:
  "keywords_ready \<noteq> None
   \<and> fst (handleAiWrite (example_host ''completed'' (JArray [])) (the keywords_ready)) = None
   \<and> generateCacheKey (example_host ''completed'' (JArray [])) ''some text''
         (snd (handleAiWrite (example_host ''completed'' (JArray [])) (the keywords_ready)))
       = Inr ''keywords-note-1-some text-''
   \<and> map_of (apiCache (snd (handleAiWrite (example_host ''completed'' (JArray []))
         (the keywords_ready)))) ''keywords-note-1-some text-'' = Some []
   \<and> length (requests (snd (handleAiWrite (example_host ''completed'' (JArray []))
         (the keywords_ready)))) = 2
   \<and> length (requests (snd (handleAiWrite (example_host ''completed'' (JArray []))
         (snd (handleAiWrite (example_host ''completed'' (JArray [])) (the keywords_ready)))))) = 4"
  by code_simp

text \<open>
  Claim C7, amended. When a run of \<open>handleAiWrite\<close> for a section, a note with an id, a
  language and a source text has populated the cache with a non-empty result (the
  cache had no usable entry for the key before, and holds \<open>r\<close>, non-empty, after), a second
  run in the state it leaves, with the same section, note, language and text and hence
  the same key, returns without an exception, renders \<open>r\<close> in the current panel, persists
  it under the key of the section, and sends no request.
\<close>

theorem second_run_served_from_cache:
  assumes first: "handleAiWrite H s = (e1, s1)"
    and doc: "currentNoteId s = Some noteId" "noteId \<noteq> []"
    and ck: "generateCacheKey H (trim H (noteText s)) s = Inr cacheKey"
    and miss: "\<not> truthy (map_of (apiCache s) cacheKey)"
    and hit: "map_of (apiCache s1) cacheKey = Some r" "r \<noteq> []"
  shows "\<exists>sec element. activeSection s1 = Some sec \<and> currentSectionElement s1 = Some element
      \<and> generateCacheKey H (trim H (noteText s1)) s1 = Inr cacheKey
      \<and> fst (handleAiWrite H s1) = None
      \<and> requests (snd (handleAiWrite H s1)) = requests s1
      \<and> innerText element (snd (handleAiWrite H s1)) = r
      \<and> getFromLocalStorage (sectionKey noteId sec s1) [] (storage (snd (handleAiWrite H s1))) = r"
proof -
  from miss hit have "apiCache s1 \<noteq> apiCache s" by (auto simp: truthy_def)
  with first obtain sec element where sec: "activeSection s = Some sec"
    and path: "apiPath sec \<noteq> None"
    and key: "getFromLocalStorage ''apiKey'' [] (storage s) \<noteq> []"
    and content: "trim H (noteText s) \<noteq> []"
    and el: "currentSectionElement s = Some element"
    using handleAiWrite_gates by blast
  have fr: "enrichment_frame s s1"
    using frame_handleAiWrite [of s H] first by simp
  then have same: "activeSection s1 = Some sec" "currentSectionElement s1 = Some element"
    "noteText s1 = noteText s" "currentNoteId s1 = Some noteId"
    using sec el doc by (simp_all add: enrichment_frame_def)
  have ck1: "generateCacheKey H (trim H (noteText s1)) s1 = Inr cacheKey"
    using ck same(3) generateCacheKey_frame [OF fr] by simp
  have key1: "getFromLocalStorage ''apiKey'' [] (storage s1) \<noteq> []"
    using key apiKey_frame [OF fr] by simp
  have run: "handleAiWrite H s1 = (None, saveSectionContent (setContent element r s1))"
    using handleAiWrite_hit [OF same(1) key1 _ ck1 hit same(2)] content same(3) by simp
  define s2 where "s2 = setContent element r s1"
  have s2: "currentNoteId s2 = Some noteId" "activeSection s2 = Some sec"
    "currentSectionElement s2 = Some element" "innerText element s2 = r"
    "requests s2 = requests s1"
    using same by (simp_all add: s2_def setContent_def innerText_def update_conv')
  from path have sne: "sec \<noteq> []" by (auto simp: apiPath_def)
  have keyeq: "sectionKey noteId sec s2 = sectionKey noteId sec s1"
    by (simp add: s2_def sectionKey_def setContent_def)
  have persisted: "getFromLocalStorage (sectionKey noteId sec s1) [] (storage (saveSectionContent s2)) = r"
    using saveSectionContent_persists [OF s2(1) doc(2) s2(2) sne s2(3), of "[]"] s2(4) keyeq by simp
  have shown: "innerText element (saveSectionContent s2) = r"
    using s2(4) by (simp add: saveSectionContent_def innerText_def Let_def)
  have reqs: "requests (saveSectionContent s2) = requests s1"
    using s2(5) by (simp add: saveSectionContent_def Let_def)
  from same ck1 run persisted shown reqs show ?thesis
    unfolding s2_def by simp
qed

lemma summary_ready_state:
  "summary_ready \<noteq> None
   \<and> currentNoteId (the summary_ready) = Some ''note-1''
   \<and> generateCacheKey (example_host ''completed'' (JObject [(''summary'', ''short'')]))
         (trim (example_host ''completed'' (JObject [(''summary'', ''short'')]))
            (noteText (the summary_ready))) (the summary_ready)
       = Inr ''summary-note-1-some text-''
   \<and> \<not> truthy (map_of (apiCache (the summary_ready)) ''summary-note-1-some text-'')
   \<and> map_of (apiCache (snd (handleAiWrite
         (example_host ''completed'' (JObject [(''summary'', ''short'')])) (the summary_ready))))
         ''summary-note-1-some text-'' = Some ''short''
   \<and> length (requests (snd (handleAiWrite
         (example_host ''completed'' (JObject [(''summary'', ''short'')])) (the summary_ready)))) = 2"
  by code_simp

theorem second_run_served_from_cache_witness:
  "summary_ready \<noteq> None
   \<and> length (requests (snd (handleAiWrite
         (example_host ''completed'' (JObject [(''summary'', ''short'')])) (the summary_ready)))) = 2
   \<and> fst (handleAiWrite (example_host ''completed'' (JObject [(''summary'', ''short'')]))
         (snd (handleAiWrite (example_host ''completed'' (JObject [(''summary'', ''short'')]))
            (the summary_ready)))) = None
   \<and> requests (snd (handleAiWrite (example_host ''completed'' (JObject [(''summary'', ''short'')]))
         (snd (handleAiWrite (example_host ''completed'' (JObject [(''summary'', ''short'')]))
            (the summary_ready)))))
       = requests (snd (handleAiWrite
           (example_host ''completed'' (JObject [(''summary'', ''short'')])) (the summary_ready)))"
proof -
  define H where "H = example_host ''completed'' (JObject [(''summary'', ''short'')])"
  define s where "s = the summary_ready"
  define s1 where "s1 = snd (handleAiWrite H s)"
  have first: "handleAiWrite H s = (fst (handleAiWrite H s), s1)" by (simp add: s1_def)
  from summary_ready_state have st: "summary_ready \<noteq> None"
    and doc: "currentNoteId s = Some ''note-1''"
    and ck: "generateCacheKey H (trim H (noteText s)) s = Inr ''summary-note-1-some text-''"
    and miss: "\<not> truthy (map_of (apiCache s) ''summary-note-1-some text-'')"
    and hit: "map_of (apiCache s1) ''summary-note-1-some text-'' = Some ''short''"
    and two: "length (requests s1) = 2"
    unfolding H_def s_def s1_def by blast+
  have "''note-1'' \<noteq> []" and "''short'' \<noteq> []" by simp_all
  from second_run_served_from_cache [OF first doc this(1) ck miss hit this(2)] st two
  show ?thesis unfolding H_def s_def s1_def by blast
qed

lemma translation_saved_closed:
  "map_option (\<lambda>s. (map tabId (tabs s), getFromLocalStorage ''note-1'' [] (storage s),
        getFromLocalStorage ''note-1-translation-en'' [] (storage s),
        fst (closeTab (example_host ''completed'' (JObject [(''content'', ''hola'')])) 0 s),
        map tabId (tabs (snd (closeTab (example_host ''completed'' (JObject [(''content'', ''hola'')])) 0 s))),
        storage (snd (closeTab (example_host ''completed'' (JObject [(''content'', ''hola'')])) 0 s))))
     translation_saved
   = Some ([''note-1'', ''note-2''], ''hello'', ''hola'', None, [''note-2''],
       \<lparr>pendingWrites = [(''tabs'', ''note-2;''), (''currentTabIndex'', ''0'')],
        writeTimeout = True,
        localStorage = [(''tabs'', ''note-1;''), (''currentTabIndex'', ''0''),
                        (''apiKey'', ''secret''), (''note-1-translation-en'', ''hola'')]\<rparr>)"
  by code_simp

text \<open>
  Claim C4 against the code. A translation result is persisted under
  \<^verbatim>\<open>{id}-translation-{language}\<close> by \<open>saveSectionContent\<close>, but \<open>closeTab\<close> removes
  \<^verbatim>\<open>{id}-translation\<close> only. In the session below the first note is translated to \<^verbatim>\<open>en\<close>, the
  writes are flushed, a second tab is created and the first one is closed. The content
  key of the closed note is gone from the store afterwards, but its translation is still
  in the durable store and a read of its key gives it, not the default.
\<close>

theorem closeTab_leaves_translation_result:
  "translation_saved \<noteq> None
   \<and> map tabId (tabs (the translation_saved)) = [''note-1'', ''note-2'']
   \<and> getFromLocalStorage ''note-1'' [] (storage (the translation_saved)) = ''hello''
   \<and> getFromLocalStorage ''note-1-translation-en'' [] (storage (the translation_saved)) = ''hola''
   \<and> fst (closeTab (example_host ''completed'' (JObject [(''content'', ''hola'')])) 0
          (the translation_saved)) = None
   \<and> map tabId (tabs (snd (closeTab (example_host ''completed'' (JObject [(''content'', ''hola'')])) 0
          (the translation_saved)))) = [''note-2'']
   \<and> storage (snd (closeTab (example_host ''completed'' (JObject [(''content'', ''hola'')])) 0
          (the translation_saved)))
       = \<lparr>pendingWrites = [(''tabs'', ''note-2;''), (''currentTabIndex'', ''0'')],
          writeTimeout = True,
          localStorage = [(''tabs'', ''note-1;''), (''currentTabIndex'', ''0''),
                          (''apiKey'', ''secret''), (''note-1-translation-en'', ''hola'')]\<rparr>
   \<and> getFromLocalStorage ''note-1'' []
         (storage (snd (closeTab (example_host ''completed'' (JObject [(''content'', ''hola'')])) 0
            (the translation_saved)))) = []
   \<and> getFromLocalStorage ''note-1-translation-en'' []
         (storage (snd (closeTab (example_host ''completed'' (JObject [(''content'', ''hola'')])) 0
            (the translation_saved)))) = ''hola''"
proof -
  from translation_saved_closed obtain s where s: "translation_saved = Some s"
    and a: "map tabId (tabs s) = [''note-1'', ''note-2'']"
      "getFromLocalStorage ''note-1'' [] (storage s) = ''hello''"
      "getFromLocalStorage ''note-1-translation-en'' [] (storage s) = ''hola''"
      "fst (closeTab (example_host ''completed'' (JObject [(''content'', ''hola'')])) 0 s) = None"
      "map tabId (tabs (snd (closeTab (example_host ''completed'' (JObject [(''content'', ''hola'')])) 0 s)))
         = [''note-2'']"
      "storage (snd (closeTab (example_host ''completed'' (JObject [(''content'', ''hola'')])) 0 s))
       = \<lparr>pendingWrites = [(''tabs'', ''note-2;''), (''currentTabIndex'', ''0'')],
          writeTimeout = True,
          localStorage = [(''tabs'', ''note-1;''), (''currentTabIndex'', ''0''),
                          (''apiKey'', ''secret''), (''note-1-translation-en'', ''hola'')]\<rparr>"
    by auto
  have gone: "getFromLocalStorage ''note-1'' []
      (storage (snd (closeTab (example_host ''completed'' (JObject [(''content'', ''hola'')])) 0 s))) = []"
    unfolding a(6) by (simp add: getFromLocalStorage_def getItem_def or_else_def)
  have left: "getFromLocalStorage ''note-1-translation-en'' []
      (storage (snd (closeTab (example_host ''completed'' (JObject [(''content'', ''hola'')])) 0 s)))
      = ''hola''"
    unfolding a(6) by (simp add: getFromLocalStorage_def getItem_def or_else_def)
  from a gone left show ?thesis unfolding s by simp
qed

end
